theory Spec2Isabelle
  imports Main "HOL-Library.Sublist"
begin

section \<open>The session manager of the front end\<close>

text \<open>
  A shallow embedding of the class \<open>SessionManager\<close> (enhanced session manager of the
  front end). The class keeps a validation cache, a single-flight refresh slot, the live
  session context and a set of listeners; it talks to the identity provider
  (\<open>supabase.auth\<close>), to \<open>window.localStorage\<close> and to the storage manager.

  JavaScript runs one synchronous segment at a time: a method runs without interruption
  up to its next \<open>await\<close>. The methods are modelled as functions on a record of the
  manager's fields and of its collaborators' state. What the environment answers (the
  provider's replies, the clock, the listeners' behaviour) is a parameter of each
  function; every awaited call of the environment settles, by throwing or by returning.
\<close>

subsection \<open>Strings\<close>

text \<open>\<open>s.startsWith(p)\<close> and \<open>s.includes(p)\<close>.\<close>

fun starts_with :: "string \<Rightarrow> string \<Rightarrow> bool" where
  "starts_with s [] = True"
| "starts_with [] (p # ps) = False"
| "starts_with (c # cs) (p # ps) = (c = p \<and> starts_with cs ps)"

fun includes_str :: "string \<Rightarrow> string \<Rightarrow> bool" where
  "includes_str [] p = (p = [])"
| "includes_str (c # cs) p = (starts_with (c # cs) p \<or> includes_str cs p)"

text \<open>
  \<open>s.split(sep)\<close> for a separator that is not empty (the source splits on \<open>'.'\<close> and
  on \<open>'//'\<close> only): \<open>acc\<close> holds the current piece, reversed.
\<close>

function split_from :: "string \<Rightarrow> string \<Rightarrow> string \<Rightarrow> string list" where
  "split_from sep acc [] = [rev acc]"
| "split_from sep acc (c # cs) =
     (if sep \<noteq> [] \<and> starts_with (c # cs) sep
      then rev acc # split_from sep [] (drop (length sep) (c # cs))
      else split_from sep (c # acc) cs)"
  by pat_completeness auto
termination
  by (relation "measure (\<lambda>(sep, acc, s). length s)") auto

definition split :: "string \<Rightarrow> string \<Rightarrow> string list" where
  "split sep s = split_from sep [] s"

text \<open>The decimal digits of a number, as a template literal prints it.\<close>

fun digits :: "nat \<Rightarrow> string" where
  "digits n = (if n < 10 then [''0123456789'' ! n]
               else digits (n div 10) @ [''0123456789'' ! (n mod 10)])"

definition show_int :: "int \<Rightarrow> string" where
  "show_int i = (if i < 0 then CHR ''-'' # digits (nat (- i)) else digits (nat i))"

subsection \<open>Data\<close>

text \<open>
  \<open>User\<close> and \<open>Session\<close> of the provider's client library, with the fields the manager
  reads. A metadata object is a map from its keys to string values; \<open>email\<close> and
  \<open>expires_at\<close> are optional. A session always has a user (the declared type of
  \<open>Session.user\<close> is \<open>User\<close>).
\<close>

type_synonym metadata = "string \<rightharpoonup> string"

record User =
  uid :: string
  user_email :: "string option"
  app_metadata :: "metadata option"
  user_metadata :: "metadata option"

record Session =
  access_token :: string
  refresh_token :: string
  expires_at :: "int option"
  user :: User

record SessionValidation =
  isValid :: bool
  session :: "Session option"
  error :: "string option"

record SessionContext =
  user_id :: string
  tenant_id :: string
  email :: string
  session_id :: string
  login_timestamp :: int
  last_activity :: int

datatype event_type = Login | Logout | User_change | Tenant_change | Cleanup | Corruption_detected

record SessionChangeEvent =
  event_type :: event_type
  previous_context :: "SessionContext option"
  new_context :: "SessionContext option"
  cleanup_performed :: bool
  timestamp :: int

text \<open>A thrown value with its \<open>message\<close> (empty when it has none).\<close>

datatype Error = Error (message: string)

text \<open>An awaited call of the environment settles: it throws (rejects) or returns.\<close>

datatype 'a reply = Throws Error | Returns 'a

subsection \<open>Resolving the session context\<close>

text \<open>
  \<open>JSON.parse(atob(part))\<close> belongs to the platform and is a parameter of the model: for
  the middle part of a token it either throws (\<open>atob\<close> or \<open>JSON.parse\<close> throws, or the
  parsed value is \<open>null\<close>, so that reading its \<open>tenant_id\<close> throws), or it yields a
  payload, of which the model keeps the \<open>tenant_id\<close> claim (a string) if there is one.
\<close>

datatype payload = Malformed | Payload "string option"

text \<open>\<open>a || b\<close> on optional strings: the empty string and a missing value are falsy.\<close>

definition truthy :: "string option \<Rightarrow> bool" where
  "truthy a = (case a of None \<Rightarrow> False | Some s \<Rightarrow> s \<noteq> [])"

definition or_else :: "string option \<Rightarrow> string option \<Rightarrow> string option" where
  "or_else a b = (if truthy a then a else b)"

definition or_empty :: "string option \<Rightarrow> string" where
  "or_empty a = (case a of None \<Rightarrow> [] | Some s \<Rightarrow> s)"

text \<open>\<open>m?.tenant_id\<close> for an optional metadata object.\<close>

definition tenant_of :: "metadata option \<Rightarrow> string option" where
  "tenant_of m = (case m of None \<Rightarrow> None | Some f \<Rightarrow> f ''tenant_id'')"

text \<open>
  \<open>createSessionContext\<close>. The \<open>try\<close> block reads the claim of a token with exactly
  three parts, or recognises the mock token; only when decoding throws does the \<open>catch\<close>
  block read the metadata. All three clock readings happen in one synchronous segment and
  are the one parameter \<open>now\<close>.
\<close>

definition createSessionContext :: "(string \<Rightarrow> payload) \<Rightarrow> int \<Rightarrow> Session \<Rightarrow> SessionContext" where
  "createSessionContext decode now s =
     (let u = user s;
          tok = access_token s;
          tenant =
            (if tok \<noteq> [] \<and> includes_str tok ''.'' \<and> length (split ''.'' tok) = 3 then
               (case decode (split ''.'' tok ! 1) of
                  Payload c \<Rightarrow> or_empty (or_else c (Some []))
                | Malformed \<Rightarrow>
                    or_empty (or_else (tenant_of (app_metadata u))
                                (or_else (tenant_of (user_metadata u)) (Some []))))
             else if tok = ''mock-token-123'' then ''tenant-a''
             else [])
      in \<lparr> user_id = uid u,
           tenant_id = tenant,
           email = or_empty (or_else (user_email u) (Some [])),
           session_id = ''session_'' @ uid u @ ''_'' @ show_int now,
           login_timestamp = now,
           last_activity = now \<rparr>)"

subsection \<open>The manager and its collaborators\<close>

type_synonym promise = nat
type_synonym listener = nat
type_synonym 'a answer = "'a option \<times> Error option"

text \<open>
  What the manager does to the outside, in the order it does it: the calls of the
  identity provider, the awaited back-off delays, the calls of the health checker, the
  full wipe of the storage manager, and the publication of an event with the call of each
  listener.
\<close>

datatype effect =
    GetSession
  | GetUser string
  | RefreshSession "string option"
  | SetSession string string
  | SignOut
  | Delay int
  | HealthCheck bool
  | ClearAll
  | Publish SessionChangeEvent
  | Invoke listener SessionChangeEvent

text \<open>
  Modelled from the spec: the keys of the storage manager are namespaced by user and by
  tenant. The module \<open>StorageManager\<close> is not among the sources; the spec describes a
  scoped key/value storage with \<open>set\<close>, \<open>remove(key, {scope})\<close>, a purge of everything
  under a user's namespace and \<open>clearAll\<close>. A key lives in no namespace, in a user's, or
  in a tenant's namespace below a user's.
\<close>

datatype scope = Unscoped | UserLevel string | TenantLevel string string

datatype stored = StoredContext SessionContext int | StoredText string

type_synonym managed_store = "scope \<times> string \<Rightarrow> stored option"

text \<open>
  The constants \<open>STORAGE_KEYS\<close> are declared in the storage manager's module; they are a
  parameter.
\<close>

record storage_keys =
  SESSION_METADATA :: string
  CITY_ACCESS :: string
  BOOTSTRAP_DATA :: string
  PERMISSIONS_CACHE :: string

text \<open>
  The fields of \<open>SessionManager\<close> (a promise is named by a number; the set of listeners
  keeps its insertion order), then \<open>window.localStorage\<close> and \<open>sessionStorage\<close> with
  their keys in order, the storage manager's store and context, and three ghost fields:
  the next unused promise, the value each settled refresh promise has, and the effects so
  far.
\<close>

record world =
  sessionValidationPromise :: "promise option"
  lastValidationTime :: int
  isRefreshing :: bool
  refreshPromise :: "promise option"
  currentContext :: "SessionContext option"
  sessionChangeListeners :: "listener list"
  isCleanupInProgress :: bool
  localStorage :: "(string \<times> string) list"
  sessionStorage :: "(string \<times> string) list"
  managed :: managed_store
  managedContext :: "(string \<times> string \<times> string) option"
  nextPromise :: promise
  settledRefresh :: "promise \<rightharpoonup> Session option"
  effects :: "effect list"

definition VALIDATION_CACHE_DURATION :: int where
  "VALIDATION_CACHE_DURATION = 300000"

definition MAX_RETRY_ATTEMPTS :: nat where
  "MAX_RETRY_ATTEMPTS = 5"

definition RETRY_DELAY_BASE :: int where
  "RETRY_DELAY_BASE = 1000"

definition SESSION_TIMEOUT :: int where
  "SESSION_TIMEOUT = 24 * 60 * 60 * 1000"

definition emit :: "effect \<Rightarrow> world \<Rightarrow> world" where
  "emit e w = w\<lparr>effects := effects w @ [e]\<rparr>"

subsection \<open>The storage manager\<close>

text \<open>Modelled from the spec: \<open>setContext\<close> and \<open>clearContext\<close> choose the namespace that
  \<open>set\<close> writes to.\<close>

definition storageManager_setContext :: "string \<Rightarrow> string \<Rightarrow> string \<Rightarrow> world \<Rightarrow> world" where
  "storageManager_setContext u t e w = w\<lparr>managedContext := Some (u, t, e)\<rparr>"

definition storageManager_clearContext :: "world \<Rightarrow> world" where
  "storageManager_clearContext w = w\<lparr>managedContext := None\<rparr>"

definition current_scope :: "world \<Rightarrow> scope" where
  "current_scope w = (case managedContext w of None \<Rightarrow> Unscoped | Some (u, t, e) \<Rightarrow> TenantLevel u t)"

text \<open>Modelled from the spec: \<open>set(key, value, {ttl})\<close> writes the key in the current
  namespace.\<close>

definition storageManager_set :: "string \<Rightarrow> stored \<Rightarrow> world \<Rightarrow> world" where
  "storageManager_set k v w = w\<lparr>managed := (managed w)((current_scope w, k) \<mapsto> v)\<rparr>"

text \<open>Modelled from the spec: \<open>remove(key, {context: {tenant_id, user_id}})\<close> removes the
  key from that tenant's namespace and nothing else.\<close>

definition storageManager_remove :: "string \<Rightarrow> string \<Rightarrow> string \<Rightarrow> world \<Rightarrow> world" where
  "storageManager_remove k t u w = w\<lparr>managed := (managed w)((TenantLevel u t, k) := None)\<rparr>"

definition owner :: "scope \<Rightarrow> string option" where
  "owner sc = (case sc of Unscoped \<Rightarrow> None | UserLevel u \<Rightarrow> Some u | TenantLevel u t \<Rightarrow> Some u)"

text \<open>Modelled from the spec: \<open>clearUserData(context)\<close> purges every key under that user's
  namespace, tenant-scoped or not.\<close>

definition storageManager_clearUserData :: "SessionContext \<Rightarrow> world \<Rightarrow> world" where
  "storageManager_clearUserData c w =
     w\<lparr>managed := (\<lambda>(sc, k). if owner sc = Some (user_id c) then None else managed w (sc, k))\<rparr>"

text \<open>Modelled from the spec: \<open>clearAll()\<close> wipes all storage, scoped or not (the source
  calls it to clear all of \<open>localStorage\<close>).\<close>

definition storageManager_clearAll :: "world \<Rightarrow> world" where
  "storageManager_clearAll w = emit ClearAll (w\<lparr>managed := (\<lambda>x. None), localStorage := []\<rparr>)"

subsection \<open>The notification bus\<close>

text \<open>
  A listener called with an event throws at once, or returns a promise (or nothing) that
  settles some ticks later, fulfilled or rejected. Listeners are opaque: they do not call
  back into the manager or the storage.
\<close>

datatype settlement = Fulfilled | Rejected Error

datatype behaviour = ThrowsSync Error | Settles nat settlement

text \<open>The wrapper \<open>async listener => { try { await listener(event) } catch (error) {...} }\<close>:
  when, after the publication, it settles and how.\<close>

definition guarded :: "behaviour \<Rightarrow> nat \<times> settlement" where
  "guarded b = (case b of ThrowsSync e \<Rightarrow> (0, Fulfilled)
                | Settles t Fulfilled \<Rightarrow> (t, Fulfilled)
                | Settles t (Rejected e) \<Rightarrow> (t, Fulfilled))"

text \<open>\<open>Promise.all\<close>: fulfilled once every promise is, rejected with the earliest
  rejection.\<close>

fun promise_all :: "(nat \<times> settlement) list \<Rightarrow> nat \<times> settlement" where
  "promise_all [] = (0, Fulfilled)"
| "promise_all ((t, s) # ps) =
     (case (s, promise_all ps) of
        (Fulfilled, (t', Fulfilled)) \<Rightarrow> (max t t', Fulfilled)
      | (Fulfilled, (t', Rejected e')) \<Rightarrow> (t', Rejected e')
      | (Rejected e, (t', Fulfilled)) \<Rightarrow> (t, Rejected e)
      | (Rejected e, (t', Rejected e')) \<Rightarrow> (if t \<le> t' then (t, Rejected e) else (t', Rejected e')))"

text \<open>When a listener's own invocation is over.\<close>

definition completes_at :: "behaviour \<Rightarrow> nat" where
  "completes_at b = (case b of ThrowsSync e \<Rightarrow> 0 | Settles t s \<Rightarrow> t)"

text \<open>
  \<open>notifySessionChange\<close>: every listener of the set is called with the event, in order;
  the result is when and how the awaited \<open>Promise.all\<close> settles.
\<close>

definition notifySessionChange ::
  "(listener \<Rightarrow> SessionChangeEvent \<Rightarrow> behaviour) \<Rightarrow> SessionChangeEvent \<Rightarrow> world \<Rightarrow> (nat \<times> settlement) \<times> world" where
  "notifySessionChange run ev w =
     (promise_all (map (\<lambda>l. guarded (run l ev)) (sessionChangeListeners w)),
      w\<lparr>effects := effects w @ Publish ev # map (\<lambda>l. Invoke l ev) (sessionChangeListeners w)\<rparr>)"

definition addSessionChangeListener :: "listener \<Rightarrow> world \<Rightarrow> world" where
  "addSessionChangeListener l w =
     (if l \<in> set (sessionChangeListeners w) then w
      else w\<lparr>sessionChangeListeners := sessionChangeListeners w @ [l]\<rparr>)"

definition removeSessionChangeListener :: "listener \<Rightarrow> world \<Rightarrow> world" where
  "removeSessionChangeListener l w = w\<lparr>sessionChangeListeners := removeAll l (sessionChangeListeners w)\<rparr>"

subsection \<open>Clearing the authentication state\<close>

text \<open>
  \<open>clearAuthState\<close>: the provider's sign-out is awaited inside its own \<open>try\<close>, so its
  reply does not matter; then every key of \<open>localStorage\<close> that mentions the provider, a
  token or a session goes, \<open>sessionStorage\<close> is cleared and the two single-flight slots
  are reset.
\<close>

definition auth_key :: "string \<Rightarrow> bool" where
  "auth_key k = (k \<noteq> [] \<and> (includes_str k ''supabase'' \<or> includes_str k ''auth''
                           \<or> includes_str k ''token'' \<or> includes_str k ''session''))"

definition clearAuthState :: "world \<Rightarrow> world" where
  "clearAuthState w =
     (let w1 = emit SignOut w in
      w1\<lparr>localStorage := filter (\<lambda>(k, v). \<not> auth_key k) (localStorage w1),
         sessionStorage := [],
         sessionValidationPromise := None,
         lastValidationTime := 0,
         isRefreshing := False,
         refreshPromise := None\<rparr>)"

definition invalidateCache :: "world \<Rightarrow> world" where
  "invalidateCache w = w\<lparr>sessionValidationPromise := None, lastValidationTime := 0\<rparr>"

subsection \<open>The refresh coordinator\<close>

text \<open>
  What the environment answers during one refresh: the configured provider URL, the
  platform's \<open>JSON.parse\<close> of the stored session read down to
  \<open>parsed?.currentSession?.refresh_token\<close>, the provider's reply to the refresh, its
  reply to the refresh with the stored token, its reply to \<open>setSession\<close> on that second
  path, and, for a caller that finds a refresh in flight, the value that refresh settles
  with.
\<close>

record refresh_env =
  supabaseUrl :: string
  parse_stored :: "string \<Rightarrow> string option reply"
  primary_reply :: "Session answer reply"
  stored_reply :: "Session answer reply"
  persist_reply :: "unit reply"
  inflight :: "Session option"

text \<open>The key \<open>sb-<project>-auth-token\<close>; \<open>None\<close> when the URL has no \<open>//\<close>, where the
  source throws a \<open>TypeError\<close>.\<close>

definition storageKey :: "string \<Rightarrow> string option" where
  "storageKey url =
     (case split ''//'' url of
        a # b # rest \<Rightarrow>
          (case split ''.'' b of
             h # t \<Rightarrow> Some (''sb-'' @ h @ ''-auth-token'')
           | [] \<Rightarrow> None)
      | _ \<Rightarrow> None)"

text \<open>
  The block of \<open>performRefresh\<close> under \<open>if (error)\<close>: one more call of the refresh
  primitive with the refresh token stored in \<open>localStorage\<close>; a session it yields is
  persisted and returned. Every failure on the way ends in \<open>return null\<close>.
\<close>

definition refresh_with_stored_token :: "refresh_env \<Rightarrow> world \<Rightarrow> Session option \<times> world" where
  "refresh_with_stored_token env w =
     (case storageKey (supabaseUrl env) of
        None \<Rightarrow> (None, w)
      | Some key \<Rightarrow>
          (case map_of (localStorage w) key of
             None \<Rightarrow> (None, w)
           | Some storedSession \<Rightarrow>
               if storedSession = [] then (None, w)
               else
                 (case parse_stored env storedSession of
                    Throws e \<Rightarrow> (None, w)
                  | Returns tok \<Rightarrow>
                      if truthy tok then
                        (let w1 = emit (RefreshSession tok) w in
                         case stored_reply env of
                           Throws e \<Rightarrow> (None, w1)
                         | Returns (s, err) \<Rightarrow>
                             (case (err, s) of
                                (None, Some refreshedSession) \<Rightarrow>
                                  (let w2 = emit (SetSession (access_token refreshedSession)
                                                    (refresh_token refreshedSession)) w1 in
                                   case persist_reply env of
                                     Throws e \<Rightarrow> (None, w2)
                                   | Returns u \<Rightarrow> (Some refreshedSession, w2))
                              | _ \<Rightarrow> (None, w1)))
                      else (None, w))))"

text \<open>
  \<open>performRefresh\<close>. On the first path a failure to persist is caught and the validation
  cache is cleared before the session is returned.
\<close>

definition performRefresh :: "refresh_env \<Rightarrow> world \<Rightarrow> Session option \<times> world" where
  "performRefresh env w =
     (let w1 = emit (RefreshSession None) w in
      case primary_reply env of
        Throws e \<Rightarrow> (None, w1)
      | Returns (s, err) \<Rightarrow>
          (case err of
             Some e \<Rightarrow> refresh_with_stored_token env w1
           | None \<Rightarrow>
               (case s of
                  None \<Rightarrow> (None, w1)
                | Some sess \<Rightarrow>
                    (Some sess,
                     (emit (SetSession (access_token sess) (refresh_token sess)) w1)
                       \<lparr>sessionValidationPromise := None, lastValidationTime := 0\<rparr>))))"

text \<open>
  How a call enters a single-flight method: it is handed the promise that is already
  there, or it creates a promise and starts the operation behind it.
\<close>

datatype entered = Joined promise | Started promise

definition promise_of :: "entered \<Rightarrow> promise" where
  "promise_of x = (case x of Joined p \<Rightarrow> p | Started p \<Rightarrow> p)"

text \<open>\<open>refreshSession\<close> up to its \<open>await\<close>.\<close>

definition refreshSession_enter :: "world \<Rightarrow> entered \<times> world" where
  "refreshSession_enter w =
     (case (isRefreshing w, refreshPromise w) of
        (True, Some p) \<Rightarrow> (Joined p, w)
      | _ \<Rightarrow>
          (Started (nextPromise w),
           w\<lparr>isRefreshing := True,
             refreshPromise := Some (nextPromise w),
             nextPromise := Suc (nextPromise w)\<rparr>))"

text \<open>The caller that started the refresh, from its \<open>await\<close> on: the refresh runs, its
  promise settles, and the \<open>finally\<close> block frees the slot.\<close>

definition refreshSession_settle :: "refresh_env \<Rightarrow> promise \<Rightarrow> world \<Rightarrow> Session option \<times> world" where
  "refreshSession_settle env p w =
     (let (r, w1) = performRefresh env w in
      (r, w1\<lparr>isRefreshing := False,
             refreshPromise := None,
             settledRefresh := (settledRefresh w1)(p \<mapsto> r)\<rparr>))"

text \<open>\<open>refreshSession\<close> from call to return.\<close>

definition refreshSession :: "refresh_env \<Rightarrow> world \<Rightarrow> Session option \<times> world" where
  "refreshSession env w =
     (case refreshSession_enter w of
        (Joined p, w1) \<Rightarrow> (inflight env, w1)
      | (Started p, w1) \<Rightarrow> refreshSession_settle env p w1)"

text \<open>Several callers enter one after the other, before the provider has replied.\<close>

fun refresh_calls :: "nat \<Rightarrow> world \<Rightarrow> entered list \<times> world" where
  "refresh_calls 0 w = ([], w)"
| "refresh_calls (Suc n) w =
     (let (x, w1) = refreshSession_enter w; (xs, w2) = refresh_calls n w1 in (x # xs, w2))"

subsection \<open>The validator and its cache\<close>

text \<open>What the environment answers during one attempt of a validation.\<close>

record attempt_env =
  session_reply :: "Session answer reply"
  attempt_clock :: int
  user_reply :: "User answer reply"
  refresh_replies :: refresh_env

definition message_or :: "Error option \<Rightarrow> string \<Rightarrow> string" where
  "message_or e d = (case e of None \<Rightarrow> d | Some x \<Rightarrow> if message x = [] then d else message x)"

definition expiring :: "Session \<Rightarrow> int \<Rightarrow> bool" where
  "expiring s now = (case expires_at s of None \<Rightarrow> False | Some x \<Rightarrow> x \<noteq> 0 \<and> x * 1000 - now < 60000)"

definition valid_with :: "Session \<Rightarrow> SessionValidation" where
  "valid_with s = \<lparr>isValid = True, session = Some s, error = None\<rparr>"

definition invalid_with :: "string \<Rightarrow> SessionValidation" where
  "invalid_with m = \<lparr>isValid = False, session = None, error = Some m\<rparr>"

text \<open>The body of the \<open>try\<close> block of \<open>performValidation\<close>: it returns a result
  (\<open>Inr\<close>) or throws (\<open>Inl\<close>).\<close>

definition validation_attempt :: "attempt_env \<Rightarrow> world \<Rightarrow> (Error + SessionValidation) \<times> world" where
  "validation_attempt env w =
     (let w1 = emit GetSession w in
      case session_reply env of
        Throws e \<Rightarrow> (Inl e, w1)
      | Returns (s, err) \<Rightarrow>
          (case err of
             Some e \<Rightarrow> (Inl e, w1)
           | None \<Rightarrow>
               (case s of
                  None \<Rightarrow> (Inr (invalid_with ''No session found''), w1)
                | Some sess \<Rightarrow>
                    if expiring sess (attempt_clock env) then
                      (case refreshSession (refresh_replies env) w1 of
                         (Some refreshedSession, w2) \<Rightarrow> (Inr (valid_with refreshedSession), w2)
                       | (None, w2) \<Rightarrow> (Inr (invalid_with ''Failed to refresh expired token''), w2))
                    else
                      (let w2 = emit (GetUser (access_token sess)) w1 in
                       case user_reply env of
                         Throws e \<Rightarrow> (Inl e, w2)
                       | Returns (u, userError) \<Rightarrow>
                           (case (userError, u) of
                              (None, Some usr) \<Rightarrow> (Inr (valid_with sess), w2)
                            | _ \<Rightarrow>
                                (case refreshSession (refresh_replies env) w2 of
                                   (Some refreshedSession, w3) \<Rightarrow> (Inr (valid_with refreshedSession), w3)
                                 | (None, w3) \<Rightarrow>
                                     (Inr (invalid_with (message_or userError ''User validation failed'')), w3)))))))"

text \<open>
  The loop of \<open>performValidation\<close> from a given attempt on, with the last error caught so
  far; the awaited back-off delay is an effect.
\<close>

function performValidation_from :: "(nat \<Rightarrow> attempt_env) \<Rightarrow> nat \<Rightarrow> Error option \<Rightarrow> world \<Rightarrow> SessionValidation \<times> world" where
  "performValidation_from env attempt lastError w =
     (if attempt \<le> MAX_RETRY_ATTEMPTS then
        (case validation_attempt (env attempt) w of
           (Inr result, w1) \<Rightarrow> (result, w1)
         | (Inl e, w1) \<Rightarrow>
             performValidation_from env (attempt + 1) (Some e)
               (if attempt < MAX_RETRY_ATTEMPTS
                then emit (Delay (RETRY_DELAY_BASE * 2 ^ (attempt - 1))) w1
                else w1))
      else (invalid_with (message_or lastError ''Session validation failed after all retries''), w))"
  by pat_completeness auto
termination
  by (relation "measure (\<lambda>(env, attempt, lastError, w). Suc MAX_RETRY_ATTEMPTS - attempt)") auto

declare performValidation_from.simps [simp del]

definition performValidation :: "(nat \<Rightarrow> attempt_env) \<Rightarrow> world \<Rightarrow> SessionValidation \<times> world" where
  "performValidation env w = performValidation_from env 1 None w"

text \<open>
  \<open>validateSession\<close>: the clock is read once for the test and once more for the stamp. A
  new validation gets a new promise; its body is \<open>performValidation\<close>.
\<close>

definition validateSession :: "int \<Rightarrow> int \<Rightarrow> world \<Rightarrow> entered \<times> world" where
  "validateSession t_check t_start w =
     (case sessionValidationPromise w of
        Some p \<Rightarrow>
          if t_check - lastValidationTime w < VALIDATION_CACHE_DURATION then (Joined p, w)
          else (Started (nextPromise w),
                w\<lparr>lastValidationTime := t_start,
                  sessionValidationPromise := Some (nextPromise w),
                  nextPromise := Suc (nextPromise w)\<rparr>)
      | None \<Rightarrow>
          (Started (nextPromise w),
           w\<lparr>lastValidationTime := t_start,
             sessionValidationPromise := Some (nextPromise w),
             nextPromise := Suc (nextPromise w)\<rparr>))"

text \<open>Callers one after the other, each with its two clock readings.\<close>

fun validate_calls :: "(int \<times> int) list \<Rightarrow> world \<Rightarrow> entered list \<times> world" where
  "validate_calls [] w = ([], w)"
| "validate_calls ((t_check, t_start) # ts) w =
     (let (x, w1) = validateSession t_check t_start w; (xs, w2) = validate_calls ts w1
      in (x # xs, w2))"

subsection \<open>Isolation and cleanup\<close>

text \<open>
  What the environment answers during one run of \<open>initializeSession\<close> or of a cleanup:
  the storage keys, the clock (read for the timestamps of that run), the platform's
  decoder of a token's payload, the behaviour of each listener for each event, the
  provider's live session as the corruption check and as the initialisation read it, and
  the health checker's report without and with \<open>autoFix\<close> (what an automatic fix does
  to the storage is outside the model).
\<close>

record environment =
  STORAGE_KEYS :: storage_keys
  clock :: int
  decoder :: "string \<Rightarrow> payload"
  listener_run :: "listener \<Rightarrow> SessionChangeEvent \<Rightarrow> behaviour"
  corruption_probe :: "Session answer reply"
  health_report :: "string reply"
  current_session :: "Session answer reply"
  health_fix :: "string reply"

text \<open>\<open>setSessionContext\<close>: the event is \<open>user_change\<close> whenever a context was held
  before, \<open>login\<close> otherwise.\<close>

definition setSessionContext :: "environment \<Rightarrow> SessionContext \<Rightarrow> world \<Rightarrow> world" where
  "setSessionContext env c w =
     (let previousContext = currentContext w;
          w1 = w\<lparr>currentContext := Some c\<rparr>;
          w2 = storageManager_setContext (user_id c) (tenant_id c) (email c) w1;
          w3 = storageManager_set (SESSION_METADATA (STORAGE_KEYS env)) (StoredContext c SESSION_TIMEOUT) w2
      in snd (notifySessionChange (listener_run env)
                \<lparr>event_type = (case previousContext of None \<Rightarrow> Login | Some p \<Rightarrow> User_change),
                 previous_context = previousContext,
                 new_context = Some c,
                 cleanup_performed = False,
                 timestamp = clock env\<rparr> w3))"

definition legacyPatterns :: "string list" where
  "legacyPatterns = [''city_access_cache'', ''bootstrap_cache'', ''auth_cache'', ''user_context'']"

definition legacy_key :: "string \<Rightarrow> bool" where
  "legacy_key k = (k \<noteq> [] \<and> list_ex (\<lambda>p. includes_str k p \<or> starts_with k p) legacyPatterns)"

definition clearLegacyStorage :: "world \<Rightarrow> world" where
  "clearLegacyStorage w = w\<lparr>localStorage := filter (\<lambda>(k, v). \<not> legacy_key k) (localStorage w)\<rparr>"

text \<open>
  \<open>performComprehensiveCleanup\<close>. Its first \<open>await\<close> is the one on
  \<open>clearLegacyStorage()\<close>, and \<open>clearLegacyStorage\<close> has no \<open>await\<close> of its own: the
  purge of the user's data and of the legacy keys runs in the synchronous segment of the
  call (\<open>performComprehensiveCleanup_begin\<close>). The rest runs after the suspension: the
  health check with \<open>autoFix\<close>, and \<open>clearAuthState\<close>; a health check that throws is
  caught, and the step after it is skipped.
\<close>

definition performComprehensiveCleanup_begin :: "world \<Rightarrow> world" where
  "performComprehensiveCleanup_begin w =
     clearLegacyStorage
       (case currentContext w of Some c \<Rightarrow> storageManager_clearUserData c w | None \<Rightarrow> w)"

definition performComprehensiveCleanup_rest :: "environment \<Rightarrow> world \<Rightarrow> world" where
  "performComprehensiveCleanup_rest env w =
     (let w3 = emit (HealthCheck True) w
      in case health_fix env of Throws e \<Rightarrow> w3 | Returns h \<Rightarrow> clearAuthState w3)"

definition performComprehensiveCleanup :: "environment \<Rightarrow> world \<Rightarrow> world" where
  "performComprehensiveCleanup env w =
     performComprehensiveCleanup_rest env (performComprehensiveCleanup_begin w)"

definition performUserSpecificCleanup :: "SessionContext \<Rightarrow> world \<Rightarrow> world" where
  "performUserSpecificCleanup c w = storageManager_clearUserData c w"

definition tenantSpecificKeys :: "storage_keys \<Rightarrow> string list" where
  "tenantSpecificKeys K = [CITY_ACCESS K, BOOTSTRAP_DATA K, PERMISSIONS_CACHE K]"

definition performTenantSpecificCleanup :: "storage_keys \<Rightarrow> SessionContext \<Rightarrow> world \<Rightarrow> world" where
  "performTenantSpecificCleanup K c w =
     fold (\<lambda>key. storageManager_remove key (tenant_id c) (user_id c)) (tenantSpecificKeys K) w"

text \<open>
  \<open>clearSessionComplete\<close>. A call that finds a cleanup in progress returns at once. A
  call that does not runs, in one synchronous segment, its own statements and the
  cleanup up to the first \<open>await\<close> (\<open>clearSessionComplete_enter\<close>); it is suspended
  there and goes on (\<open>clearSessionComplete_resume\<close>, with the previous context it has
  kept) through the rest of the cleanup and the publication to the \<open>finally\<close> block.
\<close>

definition clearSessionComplete_enter :: "world \<Rightarrow> world" where
  "clearSessionComplete_enter w =
     performComprehensiveCleanup_begin
       (storageManager_clearContext (w\<lparr>isCleanupInProgress := True, currentContext := None\<rparr>))"

definition clearSessionComplete_resume :: "environment \<Rightarrow> SessionContext option \<Rightarrow> world \<Rightarrow> world" where
  "clearSessionComplete_resume env previousContext w =
     (let w1 = performComprehensiveCleanup_rest env w;
          w2 = snd (notifySessionChange (listener_run env)
                      \<lparr>event_type = Logout,
                       previous_context = previousContext,
                       new_context = None,
                       cleanup_performed = True,
                       timestamp = clock env\<rparr> w1)
      in w2\<lparr>isCleanupInProgress := False\<rparr>)"

definition clearSessionComplete :: "environment \<Rightarrow> world \<Rightarrow> world" where
  "clearSessionComplete env w =
     (if isCleanupInProgress w then w
      else clearSessionComplete_resume env (currentContext w) (clearSessionComplete_enter w))"

definition handleUserChange :: "environment \<Rightarrow> SessionContext \<Rightarrow> SessionContext \<Rightarrow> world \<Rightarrow> world" where
  "handleUserChange env previousContext newContext w =
     (let w1 = performUserSpecificCleanup previousContext w;
          w2 = setSessionContext env newContext w1
      in snd (notifySessionChange (listener_run env)
                \<lparr>event_type = User_change,
                 previous_context = Some previousContext,
                 new_context = Some newContext,
                 cleanup_performed = True,
                 timestamp = clock env\<rparr> w2))"

definition handleTenantChange :: "environment \<Rightarrow> SessionContext \<Rightarrow> SessionContext \<Rightarrow> world \<Rightarrow> world" where
  "handleTenantChange env previousContext newContext w =
     (let w1 = performTenantSpecificCleanup (STORAGE_KEYS env) previousContext w;
          w2 = setSessionContext env newContext w1
      in snd (notifySessionChange (listener_run env)
                \<lparr>event_type = Tenant_change,
                 previous_context = Some previousContext,
                 new_context = Some newContext,
                 cleanup_performed = True,
                 timestamp = clock env\<rparr> w2))"

text \<open>
  \<open>detectSessionCorruption\<close>: more than three keys of \<open>localStorage\<close> that mention the
  session-metadata key, a live session of another user than the context held, or a
  critical or corrupted health report; any exception on the way counts as corruption.
\<close>

definition sessionKeys :: "storage_keys \<Rightarrow> world \<Rightarrow> string list" where
  "sessionKeys K w = filter (\<lambda>k. k \<noteq> [] \<and> includes_str k (SESSION_METADATA K)) (map fst (localStorage w))"

definition detectSessionCorruption :: "environment \<Rightarrow> world \<Rightarrow> bool \<times> world" where
  "detectSessionCorruption env w =
     (if length (sessionKeys (STORAGE_KEYS env) w) > 3 then (True, w)
      else
        (let w1 = emit GetSession w in
         case corruption_probe env of
           Throws e \<Rightarrow> (True, w1)
         | Returns (s, err) \<Rightarrow>
             if (case (s, currentContext w1) of
                   (Some sess, Some c) \<Rightarrow> uid (user sess) \<noteq> user_id c
                 | _ \<Rightarrow> False)
             then (True, w1)
             else
               (let w2 = emit (HealthCheck False) w1 in
                case health_report env of
                  Throws e \<Rightarrow> (True, w2)
                | Returns h \<Rightarrow> (h = ''critical'' \<or> h = ''corrupted'', w2))))"

text \<open>\<open>performEmergencyCleanup\<close>: the event it publishes has the type \<open>cleanup\<close> and
  carries the context that is cleared after the publication.\<close>

definition performEmergencyCleanup :: "environment \<Rightarrow> world \<Rightarrow> world" where
  "performEmergencyCleanup env w =
     (let w1 = storageManager_clearAll w;
          w2 = clearAuthState w1;
          w3 = snd (notifySessionChange (listener_run env)
                      \<lparr>event_type = Cleanup,
                       previous_context = currentContext w2,
                       new_context = None,
                       cleanup_performed = True,
                       timestamp = clock env\<rparr> w2)
      in w3\<lparr>currentContext := None\<rparr>)"

text \<open>
  \<open>initializeSession\<close>. Of the awaited calls in its \<open>try\<close> block only the provider's
  \<open>getSession\<close> can throw into its \<open>catch\<close>: the corruption check, the cleanups and the
  publication catch their own exceptions.
\<close>

definition initializeSession :: "environment \<Rightarrow> world \<Rightarrow> SessionContext option \<times> world" where
  "initializeSession env w =
     (case detectSessionCorruption env w of
        (True, w1) \<Rightarrow> (None, performEmergencyCleanup env w1)
      | (False, w1) \<Rightarrow>
          (let w2 = emit GetSession w1 in
           case current_session env of
             Throws e \<Rightarrow> (None, performEmergencyCleanup env w2)
           | Returns (s, err) \<Rightarrow>
               (case s of
                  None \<Rightarrow> (None, clearSessionComplete env w2)
                | Some sess \<Rightarrow>
                    (let newContext = createSessionContext (decoder env) (clock env) sess;
                         w3 = (case currentContext w2 of
                                 None \<Rightarrow> setSessionContext env newContext w2
                               | Some previousContext \<Rightarrow>
                                   if user_id previousContext \<noteq> user_id newContext
                                   then handleUserChange env previousContext newContext w2
                                   else if tenant_id previousContext \<noteq> tenant_id newContext
                                   then handleTenantChange env previousContext newContext w2
                                   else setSessionContext env newContext w2)
                     in (currentContext w3, w3)))))"

subsection \<open>Notions for the statements\<close>

text \<open>
  The manager right after construction, as the field initialisers of the class leave it,
  with empty storage.
\<close>

definition initial_world :: world where
  "initial_world =
     \<lparr>sessionValidationPromise = None, lastValidationTime = 0, isRefreshing = False,
      refreshPromise = None, currentContext = None, sessionChangeListeners = [],
      isCleanupInProgress = False, localStorage = [], sessionStorage = [],
      managed = (\<lambda>x. None), managedContext = None, nextPromise = 0,
      settledRefresh = Map.empty, effects = []\<rparr>"

text \<open>Kinds of effects: an awaited delay, the probe of the identity provider with an
  access token, a call of the provider's refresh primitive, a call of \<open>setSession\<close>.\<close>

definition is_delay :: "effect \<Rightarrow> bool" where
  "is_delay e = (case e of Delay d \<Rightarrow> True | _ \<Rightarrow> False)"

definition is_probe :: "effect \<Rightarrow> bool" where
  "is_probe e = (case e of GetUser t \<Rightarrow> True | _ \<Rightarrow> False)"

definition is_refresh :: "effect \<Rightarrow> bool" where
  "is_refresh e = (case e of RefreshSession t \<Rightarrow> True | _ \<Rightarrow> False)"

definition is_persist :: "effect \<Rightarrow> bool" where
  "is_persist e = (case e of SetSession a r \<Rightarrow> True | _ \<Rightarrow> False)"

text \<open>
  The schedule of a validation: of its effects, the starts of the attempts (each attempt
  starts with \<open>getSession\<close>) and the delays, in order. \<open>backoff n\<close> is the delay after
  attempt \<open>n\<close>; \<open>timeline a k\<close> is the schedule of the attempts \<open>a\<close> to \<open>k\<close>, a delay
  between each attempt and the next and none after the last.
\<close>

definition schedule :: "effect list \<Rightarrow> effect list" where
  "schedule es = filter (\<lambda>e. e = GetSession \<or> is_delay e) es"

definition backoff :: "nat \<Rightarrow> int" where
  "backoff n = RETRY_DELAY_BASE * 2 ^ (n - 1)"

definition timeline :: "nat \<Rightarrow> nat \<Rightarrow> effect list" where
  "timeline a k = GetSession # concat (map (\<lambda>n. [Delay (backoff n), GetSession]) [a..<k])"

text \<open>The effects of one attempt after its \<open>getSession\<close>: no further attempt, no delay,
  at most one probe.\<close>

definition quiet :: "effect list \<Rightarrow> bool" where
  "quiet es = (schedule es = [] \<and> length (filter is_probe es) \<le> 1)"

text \<open>The stamp of the validation cache after a step is the stamp before it, or reset.\<close>

definition stamp_kept :: "world \<Rightarrow> world \<Rightarrow> bool" where
  "stamp_kept w w' = (lastValidationTime w' = lastValidationTime w \<or> lastValidationTime w' = 0)"

text \<open>
  The tenant as the specification words it: the claim of the token's structured payload,
  then the application metadata, then the user metadata, then the empty string.
\<close>

definition three_parts :: "string \<Rightarrow> bool" where
  "three_parts tok = (tok \<noteq> [] \<and> includes_str tok ''.'' \<and> length (split ''.'' tok) = 3)"

definition token_claim :: "(string \<Rightarrow> payload) \<Rightarrow> string \<Rightarrow> string option" where
  "token_claim decode tok =
     (case split ''.'' tok of
        [h, p, sg] \<Rightarrow> (case decode p of Payload c \<Rightarrow> c | Malformed \<Rightarrow> None)
      | _ \<Rightarrow> None)"

definition resolve_tenant_spec :: "string option \<Rightarrow> metadata option \<Rightarrow> metadata option \<Rightarrow> string" where
  "resolve_tenant_spec claim app usr =
     (case claim of
        Some c \<Rightarrow> c
      | None \<Rightarrow>
          (case tenant_of app of
             Some a \<Rightarrow> a
           | None \<Rightarrow> (case tenant_of usr of Some b \<Rightarrow> b | None \<Rightarrow> [])))"

subsection \<open>Concrete inputs\<close>

text \<open>
  Three access tokens with the header \<open>{"alg":"HS256"}\<close> whose payloads are the base64
  of \<open>{"tenant_id":"tenant-a"}\<close>, of \<open>{"tenant_id":"t2"}\<close> and of \<open>{"sub":"u1"}\<close>, and
  what the platform's \<open>JSON.parse(atob(part))\<close> gives for these payloads; the part \<open>p\<close>
  of the token \<open>h.p.s\<close> is not base64, so that \<open>atob\<close> throws. The decoder is applied to
  no other string below.
\<close>

definition token_tenant_a :: string where
  "token_tenant_a = ''eyJhbGciOiJIUzI1NiJ9.eyJ0ZW5hbnRfaWQiOiJ0ZW5hbnQtYSJ9.sig''"

definition token_t2 :: string where
  "token_t2 = ''eyJhbGciOiJIUzI1NiJ9.eyJ0ZW5hbnRfaWQiOiJ0MiJ9.sig''"

definition token_no_claim :: string where
  "token_no_claim = ''eyJhbGciOiJIUzI1NiJ9.eyJzdWIiOiJ1MSJ9.sig''"

definition example_decoder :: "string \<Rightarrow> payload" where
  "example_decoder part =
     (if part = ''eyJ0ZW5hbnRfaWQiOiJ0ZW5hbnQtYSJ9'' then Payload (Some ''tenant-a'')
      else if part = ''eyJ0ZW5hbnRfaWQiOiJ0MiJ9'' then Payload (Some ''t2'')
      else if part = ''eyJzdWIiOiJ1MSJ9'' then Payload None
      else Malformed)"

text \<open>The session that the provider's client stores in \<open>localStorage\<close>, as JSON, and the
  refresh token that \<open>JSON.parse\<close> reads from it; the parser is applied to no other string
  below.\<close>

definition stored_json :: string where
  "stored_json = ''{\"currentSession\":{\"refresh_token\":\"stored-refresh-token\"}}''"

definition example_parse :: "string \<Rightarrow> string option reply" where
  "example_parse s = (if s = stored_json then Returns (Some ''stored-refresh-token'')
                      else Throws (Error ''Unexpected token''))"

text \<open>A user whose application metadata name one tenant and whose user metadata name
  another, and a session of that user with a given access token.\<close>

definition example_user :: User where
  "example_user = \<lparr>uid = ''u1'', user_email = Some ''u1@example.com'',
                    app_metadata = Some [''tenant_id'' \<mapsto> ''tenant-b''],
                    user_metadata = Some [''tenant_id'' \<mapsto> ''tenant-c'']\<rparr>"

definition example_session :: "string \<Rightarrow> Session" where
  "example_session tok =
     \<lparr>access_token = tok, refresh_token = ''r1'', expires_at = None, user = example_user\<rparr>"

text \<open>A provider that is unreachable for every refresh, and one that is unreachable for
  every attempt of a validation.\<close>

definition no_refresh :: refresh_env where
  "no_refresh =
     \<lparr>supabaseUrl = ''https://abc.supabase.co'', parse_stored = (\<lambda>s. Throws (Error ''parse'')),
      primary_reply = Throws (Error ''offline''), stored_reply = Throws (Error ''offline''),
      persist_reply = Returns (), inflight = None\<rparr>"

definition offline :: "nat \<Rightarrow> attempt_env" where
  "offline n = \<lparr>session_reply = Throws (Error ''offline''), attempt_clock = 0,
                user_reply = Throws (Error ''offline''), refresh_replies = no_refresh\<rparr>"

text \<open>A provider whose probe fails on the first attempt of a validation and answers from
  the second on.\<close>

definition flaky :: "nat \<Rightarrow> attempt_env" where
  "flaky n = \<lparr>session_reply = Returns (Some (example_session ''h.p.s''), None), attempt_clock = 0,
              user_reply = (if n = 1 then Throws (Error ''network'')
                            else Returns (Some example_user, None)),
              refresh_replies = no_refresh\<rparr>"

text \<open>Three listeners: the first settles after five ticks, the second throws at once, the
  third rejects after three ticks; an event; and a manager that holds the three.\<close>

definition example_run :: "listener \<Rightarrow> SessionChangeEvent \<Rightarrow> behaviour" where
  "example_run l ev = (if l = 0 then Settles 5 Fulfilled
                       else if l = 1 then ThrowsSync (Error ''boom'')
                       else Settles 3 (Rejected (Error ''late'')))"

definition example_event :: SessionChangeEvent where
  "example_event = \<lparr>event_type = Logout, previous_context = None, new_context = None,
                     cleanup_performed = True, timestamp = 0\<rparr>"

definition listening_world :: world where
  "listening_world = initial_world\<lparr>sessionChangeListeners := [0, 1, 2]\<rparr>"

text \<open>
  Callers of \<open>refreshSession\<close> that arrive one after the other before the provider has
  replied, followed by the completion of the refresh that the first of them started (if
  it started one). Each caller resolves to the value its promise settles with.
\<close>

definition concurrent_refresh :: "nat \<Rightarrow> refresh_env \<Rightarrow> world \<Rightarrow> entered list \<times> world" where
  "concurrent_refresh n env w =
     (let (xs, w1) = refresh_calls n w in
      case xs of
        Started p # rest \<Rightarrow> (xs, snd (refreshSession_settle env p w1))
      | _ \<Rightarrow> (xs, w1))"

definition primary_error :: "refresh_env \<Rightarrow> bool" where
  "primary_error env = (case primary_reply env of Returns (s, Some e) \<Rightarrow> True | _ \<Rightarrow> False)"

text \<open>A provider that answers the refresh with an error and the refresh with the stored
  token with a session; a browser that holds a stored session; the same with a cached
  validation.\<close>

definition fallback_env :: refresh_env where
  "fallback_env =
     \<lparr>supabaseUrl = ''https://abc.supabase.co'',
      parse_stored = example_parse,
      primary_reply = Returns (None, Some (Error ''refresh failed'')),
      stored_reply = Returns (Some (example_session ''fresh''), None),
      persist_reply = Returns (), inflight = None\<rparr>"

definition stored_world :: world where
  "stored_world = initial_world\<lparr>localStorage := [(''sb-abc-auth-token'', stored_json)]\<rparr>"

definition cached_world :: world where
  "cached_world =
     stored_world\<lparr>sessionValidationPromise := Some 0, lastValidationTime := 1000, nextPromise := 1\<rparr>"

text \<open>
  Storage keys; a context of user \<open>u1\<close> in tenant \<open>t1\<close>; an environment in which the
  provider's live session is the example user's, its token names the tenant \<open>t2\<close>, the
  storage is healthy and one listener is called; and a manager that holds the context, a
  listener, a tenant-scoped and a user-level key.
\<close>

definition example_keys :: storage_keys where
  "example_keys = \<lparr>SESSION_METADATA = ''session_metadata'', CITY_ACCESS = ''city_access'',
                    BOOTSTRAP_DATA = ''bootstrap_data'', PERMISSIONS_CACHE = ''permissions_cache''\<rparr>"

definition example_context :: SessionContext where
  "example_context = \<lparr>user_id = ''u1'', tenant_id = ''t1'', email = ''u1@example.com'',
                       session_id = ''session_u1_0'', login_timestamp = 0, last_activity = 0\<rparr>"

definition example_env :: environment where
  "example_env =
     \<lparr>STORAGE_KEYS = example_keys, clock = 7,
      decoder = example_decoder,
      listener_run = (\<lambda>l ev. Settles 0 Fulfilled),
      corruption_probe = Returns (Some (example_session token_t2), None),
      health_report = Returns ''healthy'',
      current_session = Returns (Some (example_session token_t2), None),
      health_fix = Returns ''healthy''\<rparr>"

definition tenant_world :: world where
  "tenant_world =
     initial_world
       \<lparr>currentContext := Some example_context,
        sessionChangeListeners := [0],
        managedContext := Some (''u1'', ''t1'', ''u1@example.com''),
        managed := [(TenantLevel ''u1'' ''t1'', ''city_access'') \<mapsto> StoredText ''cities'',
                    (UserLevel ''u1'', ''probe'') \<mapsto> StoredText ''kept'']\<rparr>"

text \<open>A browser whose storage holds four keys that mention the session-metadata key.\<close>

definition corrupted_world :: world where
  "corrupted_world =
     initial_world
       \<lparr>currentContext := Some example_context,
        sessionChangeListeners := [0],
        localStorage := [(''a:session_metadata'', ''1''), (''b:session_metadata'', ''2''),
                         (''c:session_metadata'', ''3''), (''d:session_metadata'', ''4'')]\<rparr>"

text \<open>A signed-in browser with a legacy key, which a full cleanup removes before its
  first suspension, and the provider's stored session, which it removes only at the end,
  in \<open>clearAuthState\<close>.\<close>

definition signed_in_world :: world where
  "signed_in_world =
     initial_world\<lparr>currentContext := Some example_context,
                   localStorage := [(''auth_cache'', ''stale''),
                                    (''sb-abc-auth-token'', stored_json)]\<rparr>"

section \<open>Properties\<close>

subsection \<open>The identity context resolver\<close>

text \<open>
  Claim C10: for every session whose access token is the literal \<open>mock-token-123\<close>,
  \<open>createSessionContext\<close> assigns the tenant \<open>tenant-a\<close>, whatever the decoder and
  whatever the application and user metadata say.
\<close>

theorem mock_token_tenant:
  "access_token s = ''mock-token-123'' \<Longrightarrow> tenant_id (createSessionContext d now s) = ''tenant-a''"
  by (simp add: createSessionContext_def Let_def)

theorem mock_token_tenant_witness:
  "access_token (example_session ''mock-token-123'') = ''mock-token-123''
   \<and> tenant_of (app_metadata (user (example_session ''mock-token-123''))) = Some ''tenant-b''
   \<and> tenant_of (user_metadata (user (example_session ''mock-token-123''))) = Some ''tenant-c''
   \<and> tenant_id (createSessionContext (\<lambda>p. Malformed) 0 (example_session ''mock-token-123'')) = ''tenant-a''"
  using mock_token_tenant [of "example_session ''mock-token-123''" "\<lambda>p. Malformed" 0]
  by (simp add: example_session_def example_user_def tenant_of_def)

text \<open>
  Claim C4, as stated, fails: a token with three parts whose payload decodes but carries
  no \<open>tenant_id\<close> claim yields the empty tenant, not the tenant of the metadata; and the
  mock token, which has no structured payload, yields \<open>tenant-a\<close>, not the tenant of the
  metadata. In both cases the ordered fallback of the specification gives \<open>tenant-b\<close>.
\<close>

theorem tenant_fallback_counterexample:
  "tenant_id (createSessionContext example_decoder 0 (example_session token_no_claim)) = []
   \<and> resolve_tenant_spec (token_claim example_decoder token_no_claim)
        (app_metadata (user (example_session token_no_claim)))
        (user_metadata (user (example_session token_no_claim))) = ''tenant-b''
   \<and> tenant_id (createSessionContext example_decoder 0 (example_session ''mock-token-123''))
        = ''tenant-a''
   \<and> resolve_tenant_spec (token_claim example_decoder ''mock-token-123'')
        (app_metadata (user (example_session ''mock-token-123'')))
        (user_metadata (user (example_session ''mock-token-123''))) = ''tenant-b''"
  by (simp add: createSessionContext_def Let_def example_session_def example_user_def split_def
        resolve_tenant_spec_def token_claim_def tenant_of_def or_empty_def or_else_def truthy_def
        token_no_claim_def example_decoder_def)

text \<open>
  Claim C4, amended: for a token of exactly three parts, a non-empty \<open>tenant_id\<close> claim
  of its decoded payload is the tenant, whatever the metadata say; when decoding the
  payload throws, the tenant is that of the application metadata if it is non-empty, else
  that of the user metadata if it is non-empty, else the empty string; and the mock token
  yields \<open>tenant-a\<close>.
\<close>

theorem tenant_resolution:
  "(three_parts (access_token s) \<and> d (split ''.'' (access_token s) ! 1) = Payload (Some c) \<and> c \<noteq> []
      \<longrightarrow> tenant_id (createSessionContext d now s) = c)
   \<and> (three_parts (access_token s) \<and> d (split ''.'' (access_token s) ! 1) = Malformed
      \<longrightarrow> tenant_id (createSessionContext d now s) =
          (if truthy (tenant_of (app_metadata (user s))) then or_empty (tenant_of (app_metadata (user s)))
           else if truthy (tenant_of (user_metadata (user s))) then or_empty (tenant_of (user_metadata (user s)))
           else []))
   \<and> (access_token s = ''mock-token-123'' \<longrightarrow> tenant_id (createSessionContext d now s) = ''tenant-a'')"
  by (auto simp add: createSessionContext_def Let_def three_parts_def or_empty_def or_else_def truthy_def
      split: option.splits)

theorem tenant_resolution_witness:
  "tenant_id (createSessionContext example_decoder 0 (example_session token_tenant_a)) = ''tenant-a''
   \<and> tenant_of (app_metadata (user (example_session token_tenant_a))) = Some ''tenant-b''
   \<and> tenant_id (createSessionContext example_decoder 0 (example_session ''h.p.s'')) = ''tenant-b''
   \<and> tenant_id (createSessionContext example_decoder 0 (example_session ''mock-token-123'')) = ''tenant-a''"
proof -
  have t: "three_parts (access_token (example_session token_tenant_a))"
    by (simp add: three_parts_def example_session_def split_def token_tenant_a_def)
  have p: "example_decoder (split ''.'' (access_token (example_session token_tenant_a)) ! 1)
             = Payload (Some ''tenant-a'')"
    by (simp add: example_session_def split_def token_tenant_a_def example_decoder_def)
  have t': "three_parts (access_token (example_session ''h.p.s''))"
    by (simp add: three_parts_def example_session_def split_def)
  have p': "example_decoder (split ''.'' (access_token (example_session ''h.p.s'')) ! 1) = Malformed"
    by (simp add: example_session_def split_def example_decoder_def)
  have m: "access_token (example_session ''mock-token-123'') = ''mock-token-123''"
    by (simp add: example_session_def)
  have a: "tenant_id (createSessionContext example_decoder 0 (example_session token_tenant_a)) = ''tenant-a''"
    using tenant_resolution [of "example_session token_tenant_a" example_decoder "''tenant-a''" 0] t p
    by simp
  have b: "tenant_id (createSessionContext example_decoder 0 (example_session ''h.p.s'')) = ''tenant-b''"
    using tenant_resolution [of "example_session ''h.p.s''" example_decoder "''x''" 0] t' p'
    by (simp add: example_session_def example_user_def tenant_of_def truthy_def or_empty_def)
  have c: "tenant_id (createSessionContext example_decoder 0 (example_session ''mock-token-123'')) = ''tenant-a''"
    using tenant_resolution [of "example_session ''mock-token-123''" example_decoder "''x''" 0] m
    by simp
  have d: "tenant_of (app_metadata (user (example_session token_tenant_a))) = Some ''tenant-b''"
    by (simp add: example_session_def example_user_def tenant_of_def)
  show ?thesis using a b c d by simp
qed

subsection \<open>The notification bus\<close>

lemma promise_all_guarded:
  "snd (promise_all (map guarded bs)) = Fulfilled \<and>
   (\<forall>b \<in> set bs. completes_at b \<le> fst (promise_all (map guarded bs)))"
proof (induction bs)
  case Nil
  then show ?case by simp
next
  case (Cons b bs)
  have g: "guarded b = (completes_at b, Fulfilled)"
    by (simp add: guarded_def completes_at_def split: behaviour.splits settlement.splits)
  obtain t' where r: "promise_all (map guarded bs) = (t', Fulfilled)"
    using Cons.IH by (cases "promise_all (map guarded bs)") auto
  show ?case using Cons.IH g r by (auto simp: max_def)
qed

text \<open>
  Claim C9: whatever the listeners do with an event, the publication is fulfilled, never
  rejected; every listener of the set is called, in order, whether or not an earlier one
  throws or rejects; and the publication settles no earlier than any listener's
  invocation completes.
\<close>

theorem publish_isolates_listeners:
  "snd (fst (notifySessionChange run ev w)) = Fulfilled
   \<and> effects (snd (notifySessionChange run ev w))
       = effects w @ Publish ev # map (\<lambda>l. Invoke l ev) (sessionChangeListeners w)
   \<and> (\<forall>l \<in> set (sessionChangeListeners w).
         completes_at (run l ev) \<le> fst (fst (notifySessionChange run ev w)))"
  using promise_all_guarded [of "map (\<lambda>l. run l ev) (sessionChangeListeners w)"]
  by (simp add: notifySessionChange_def comp_def)

theorem publish_isolates_listeners_witness:
  "snd (fst (notifySessionChange example_run example_event listening_world)) = Fulfilled
   \<and> effects (snd (notifySessionChange example_run example_event listening_world))
       = [Publish example_event, Invoke 0 example_event, Invoke 1 example_event, Invoke 2 example_event]
   \<and> completes_at (example_run 0 example_event) = 5
   \<and> 5 \<le> fst (fst (notifySessionChange example_run example_event listening_world))"
  using publish_isolates_listeners [of example_run example_event listening_world]
  by (simp add: listening_world_def initial_world_def example_run_def completes_at_def)

subsection \<open>Effects of a refresh and of a validation\<close>

lemma effects_emit [simp]: "effects (emit e w) = effects w @ [e]"
  by (simp add: emit_def)

lemma stored_token_effects:
  "\<exists>es. effects (snd (refresh_with_stored_token env w)) = effects w @ es
        \<and> (\<forall>e \<in> set es. is_refresh e \<or> is_persist e) \<and> length (filter is_refresh es) \<le> 1"
  by (auto simp: refresh_with_stored_token_def Let_def is_refresh_def is_persist_def
           split: option.splits reply.splits if_splits)

lemma performRefresh_effects:
  "\<exists>es. effects (snd (performRefresh env w)) = effects w @ RefreshSession None # es
        \<and> (\<forall>e \<in> set es. is_refresh e \<or> is_persist e) \<and> length (filter is_refresh es) \<le> 1"
proof -
  obtain es where es:
      "effects (snd (refresh_with_stored_token env (emit (RefreshSession None) w)))
         = effects (emit (RefreshSession None) w) @ es"
      "\<forall>e \<in> set es. is_refresh e \<or> is_persist e"
      "length (filter is_refresh es) \<le> 1"
    using stored_token_effects by blast
  show ?thesis
    using es
    by (auto simp: performRefresh_def Let_def is_refresh_def is_persist_def
           split: option.splits reply.splits if_splits)
qed

lemma refreshSession_effects:
  "\<exists>es. effects (snd (refreshSession env w)) = effects w @ es
        \<and> (\<forall>e \<in> set es. is_refresh e \<or> is_persist e)"
proof -
  obtain es where es:
      "effects (snd (performRefresh env (snd (refreshSession_enter w))))
         = effects (snd (refreshSession_enter w)) @ RefreshSession None # es"
      "\<forall>e \<in> set es. is_refresh e \<or> is_persist e"
    using performRefresh_effects by blast
  have same: "effects (snd (refreshSession_enter w)) = effects w"
    by (simp add: refreshSession_enter_def split: option.splits bool.splits)
  show ?thesis
  proof (cases "fst (refreshSession_enter w)")
    case (Joined p)
    then show ?thesis using same
      by (cases "refreshSession_enter w") (simp add: refreshSession_def)
  next
    case (Started p)
    then show ?thesis using same es
      by (cases "refreshSession_enter w")
         (auto simp: refreshSession_def refreshSession_settle_def is_refresh_def split: prod.splits)
  qed
qed

lemma schedule_refresh:
  "\<forall>e \<in> set es. is_refresh e \<or> is_persist e \<Longrightarrow> schedule es = [] \<and> filter is_probe es = []"
  by (induction es)
     (auto simp: schedule_def is_refresh_def is_persist_def is_delay_def is_probe_def split: effect.splits)

lemma quiet_Nil [simp]: "quiet []"
  by (simp add: quiet_def schedule_def)

lemma quiet_probe_only [simp]: "quiet [GetUser tok]"
  by (simp add: quiet_def schedule_def is_delay_def is_probe_def)

lemma refresh_after:
  assumes "refreshSession renv w1 = (r, w2)" and "effects w1 = effects w @ GetSession # pre"
    and "pre = [] \<or> pre = [GetUser tok]"
  shows "\<exists>es. effects w2 = effects w @ GetSession # es \<and> quiet es"
proof -
  obtain es where es: "effects (snd (refreshSession renv w1)) = effects w1 @ es"
      "schedule es = []" "filter is_probe es = []"
    using refreshSession_effects schedule_refresh by metis
  have "effects w2 = effects w @ GetSession # (pre @ es)"
    using es(1) assms(1,2) by simp
  moreover have "quiet (pre @ es)"
    using es(2,3) assms(3) by (auto simp: quiet_def schedule_def is_delay_def is_probe_def)
  ultimately show ?thesis by blast
qed

lemma attempt_effects:
  "\<exists>es. effects (snd (validation_attempt env w)) = effects w @ GetSession # es \<and> quiet es"
proof -
  have a: "\<And>r w2. refreshSession (refresh_replies env) (emit GetSession w) = (r, w2)
            \<Longrightarrow> \<exists>es. effects w2 = effects w @ GetSession # es \<and> quiet es"
    by (rule refresh_after [where pre = "[]"]) auto
  have b: "\<And>r w2 tok. refreshSession (refresh_replies env) (emit (GetUser tok) (emit GetSession w)) = (r, w2)
            \<Longrightarrow> \<exists>es. effects w2 = effects w @ GetSession # es \<and> quiet es"
    by (rule refresh_after [where pre = "[GetUser tok]" for tok]) auto
  show ?thesis
    unfolding validation_attempt_def Let_def
    by (auto split: reply.splits prod.splits option.splits intro: a b)
qed

lemma timeline_same [simp]: "timeline a a = [GetSession]"
  by (simp add: timeline_def)

lemma timeline_step: "a < k \<Longrightarrow> timeline a k = GetSession # Delay (backoff a) # timeline (Suc a) k"
  by (simp add: timeline_def upt_conv_Cons)

lemma schedule_append [simp]: "schedule (xs @ ys) = schedule xs @ schedule ys"
  by (simp add: schedule_def)

lemma schedule_Cons_GetSession [simp]: "schedule (GetSession # xs) = GetSession # schedule xs"
  by (simp add: schedule_def)

lemma schedule_Cons_Delay [simp]: "schedule (Delay d # xs) = Delay d # schedule xs"
  by (simp add: schedule_def is_delay_def)

lemma no_probe [simp]: "\<not> is_probe (Delay d)" "\<not> is_probe GetSession"
  by (simp_all add: is_probe_def)

text \<open>A run from attempt \<open>a\<close> makes the attempts \<open>a\<close> to some \<open>k\<close>, with the delays of the
  timeline, and probes at most once per attempt.\<close>

lemma run_from:
  "1 \<le> a \<Longrightarrow> a \<le> MAX_RETRY_ATTEMPTS \<Longrightarrow>
   \<exists>es k. effects (snd (performValidation_from env a le w)) = effects w @ es
          \<and> a \<le> k \<and> k \<le> MAX_RETRY_ATTEMPTS \<and> schedule es = timeline a k
          \<and> length (filter is_probe es) \<le> Suc k - a"
proof (induction env a le w rule: performValidation_from.induct)
  case (1 env attempt lastError w)
  obtain res w1 where att: "validation_attempt (env attempt) w = (res, w1)"
    by (cases "validation_attempt (env attempt) w")
  obtain es1 where es1: "effects w1 = effects w @ GetSession # es1" "quiet es1"
    using attempt_effects [of "env attempt" w] att by auto
  show ?case
  proof (cases res)
    case (Inr result)
    have "performValidation_from env attempt lastError w = (result, w1)"
      using att Inr "1.prems" by (subst performValidation_from.simps) simp
    then show ?thesis
      using es1 "1.prems"
      by (intro exI [of _ "GetSession # es1"] exI [of _ attempt]) (simp add: quiet_def)
  next
    case (Inl e)
    show ?thesis
    proof (cases "attempt < MAX_RETRY_ATTEMPTS")
      case True
      let ?w2 = "emit (Delay (RETRY_DELAY_BASE * 2 ^ (attempt - 1))) w1"
      have unfold: "performValidation_from env attempt lastError w
            = performValidation_from env (attempt + 1) (Some e) ?w2"
        using att Inl "1.prems" True by (subst performValidation_from.simps) simp
      obtain es2 k where ih:
          "effects (snd (performValidation_from env (attempt + 1) (Some e) ?w2)) = effects ?w2 @ es2"
          "attempt + 1 \<le> k" "k \<le> MAX_RETRY_ATTEMPTS" "schedule es2 = timeline (attempt + 1) k"
          "length (filter is_probe es2) \<le> Suc k - (attempt + 1)"
        using "1.IH" [OF _ att [symmetric] Inl] "1.prems" True by auto
      show ?thesis
        using unfold ih es1 timeline_step [of attempt k]
        by (intro exI [of _ "GetSession # es1 @ Delay (backoff attempt) # es2"] exI [of _ k])
           (auto simp: quiet_def backoff_def)
    next
      case False
      have "performValidation_from env attempt lastError w
            = performValidation_from env (attempt + 1) (Some e) w1"
        using att Inl "1.prems" False by (subst performValidation_from.simps) simp
      also have "\<dots> = (invalid_with (message_or (Some e) ''Session validation failed after all retries''), w1)"
        using "1.prems" False by (subst performValidation_from.simps) simp
      finally show ?thesis
        using es1 "1.prems"
        by (intro exI [of _ "GetSession # es1"] exI [of _ attempt]) (simp add: quiet_def)
    qed
  qed
qed

text \<open>When every attempt from \<open>a\<close> on throws, the run makes all the attempts up to the
  last and returns the last error.\<close>

lemma all_fail_from:
  "1 \<le> a \<Longrightarrow> a \<le> MAX_RETRY_ATTEMPTS \<Longrightarrow>
   (\<forall>n w'. a \<le> n \<and> n \<le> MAX_RETRY_ATTEMPTS \<longrightarrow> fst (validation_attempt (env n) w') = Inl (err n)) \<Longrightarrow>
   fst (performValidation_from env a le w)
     = invalid_with (message_or (Some (err MAX_RETRY_ATTEMPTS)) ''Session validation failed after all retries'')
   \<and> (\<exists>es. effects (snd (performValidation_from env a le w)) = effects w @ es
          \<and> schedule es = timeline a MAX_RETRY_ATTEMPTS)"
proof (induction env a le w rule: performValidation_from.induct)
  case (1 env attempt lastError w)
  obtain res w1 where att: "validation_attempt (env attempt) w = (res, w1)"
    by (cases "validation_attempt (env attempt) w")
  have res: "res = Inl (err attempt)"
    using "1.prems" att by (metis fst_conv order_refl)
  obtain es1 where es1: "effects w1 = effects w @ GetSession # es1" "quiet es1"
    using attempt_effects [of "env attempt" w] att by auto
  show ?case
  proof (cases "attempt < MAX_RETRY_ATTEMPTS")
    case True
    let ?w2 = "emit (Delay (RETRY_DELAY_BASE * 2 ^ (attempt - 1))) w1"
    have unfold: "performValidation_from env attempt lastError w
          = performValidation_from env (attempt + 1) (Some (err attempt)) ?w2"
      using att res "1.prems" True by (subst performValidation_from.simps) simp
    have ih: "fst (performValidation_from env (attempt + 1) (Some (err attempt)) ?w2)
        = invalid_with (message_or (Some (err MAX_RETRY_ATTEMPTS)) ''Session validation failed after all retries'')
        \<and> (\<exists>es. effects (snd (performValidation_from env (attempt + 1) (Some (err attempt)) ?w2)) = effects ?w2 @ es
            \<and> schedule es = timeline (attempt + 1) MAX_RETRY_ATTEMPTS)"
      using "1.IH" [OF _ att [symmetric] res] "1.prems" True by auto
    then obtain es2 where es2:
        "effects (snd (performValidation_from env (attempt + 1) (Some (err attempt)) ?w2)) = effects ?w2 @ es2"
        "schedule es2 = timeline (attempt + 1) MAX_RETRY_ATTEMPTS"
      by blast
    have "effects (snd (performValidation_from env attempt lastError w))
          = effects w @ (GetSession # es1 @ Delay (backoff attempt) # es2)"
      using unfold es2(1) es1(1) by (simp add: backoff_def)
    moreover have "schedule (GetSession # es1 @ Delay (backoff attempt) # es2) = timeline attempt MAX_RETRY_ATTEMPTS"
      using es1(2) es2(2) timeline_step [OF True] by (simp add: quiet_def)
    ultimately show ?thesis using unfold ih by auto
  next
    case False
    then have last: "attempt = MAX_RETRY_ATTEMPTS" using "1.prems" by simp
    have "performValidation_from env attempt lastError w
          = performValidation_from env (attempt + 1) (Some (err attempt)) w1"
      using att res "1.prems" False by (subst performValidation_from.simps) simp
    also have "\<dots> = (invalid_with (message_or (Some (err attempt)) ''Session validation failed after all retries''), w1)"
      using "1.prems" False by (subst performValidation_from.simps) simp
    finally show ?thesis
      using es1 last by (auto simp: quiet_def)
  qed
qed

lemma timeline_full:
  "timeline 1 MAX_RETRY_ATTEMPTS =
     [GetSession, Delay 1000, GetSession, Delay 2000, GetSession, Delay 4000,
      GetSession, Delay 8000, GetSession]"
proof -
  have "[1..<5] = [1, 2, 3, Suc 3]" by (simp add: upt_rec)
  then show ?thesis
    by (simp add: timeline_def MAX_RETRY_ATTEMPTS_def backoff_def RETRY_DELAY_BASE_def)
qed

subsection \<open>The retry policy\<close>

text \<open>
  Claim C8: every run of \<open>performValidation\<close> makes between one and five attempts; the
  delay awaited between attempt \<open>n\<close> and attempt \<open>n + 1\<close> is \<open>1000 * 2 ^ (n - 1)\<close> ms, so
  that the schedule of five attempts has the four delays 1000, 2000, 4000 and 8000 and
  ends with the fifth attempt, not with a delay; and when all five attempts throw, the
  run returns (it does not throw) an invalid result with the message of the last error,
  or with a default message when that error has none.
\<close>

theorem retry_backoff:
  "(\<exists>es k. effects (snd (performValidation env w)) = effects w @ es
       \<and> 1 \<le> k \<and> k \<le> MAX_RETRY_ATTEMPTS \<and> schedule es = timeline 1 k)
   \<and> timeline 1 MAX_RETRY_ATTEMPTS =
       [GetSession, Delay 1000, GetSession, Delay 2000, GetSession, Delay 4000,
        GetSession, Delay 8000, GetSession]
   \<and> ((\<forall>n w'. 1 \<le> n \<and> n \<le> MAX_RETRY_ATTEMPTS \<longrightarrow> fst (validation_attempt (env n) w') = Inl (err n)) \<longrightarrow>
        fst (performValidation env w)
          = \<lparr>isValid = False, session = None,
             error = Some (if message (err MAX_RETRY_ATTEMPTS) = []
                           then ''Session validation failed after all retries''
                           else message (err MAX_RETRY_ATTEMPTS))\<rparr>
        \<and> (\<exists>es. effects (snd (performValidation env w)) = effects w @ es
               \<and> schedule es = timeline 1 MAX_RETRY_ATTEMPTS))"
proof (intro conjI impI)
  show "\<exists>es k. effects (snd (performValidation env w)) = effects w @ es
       \<and> 1 \<le> k \<and> k \<le> MAX_RETRY_ATTEMPTS \<and> schedule es = timeline 1 k"
    using run_from [of 1 env None w] by (auto simp: performValidation_def MAX_RETRY_ATTEMPTS_def)
  show "timeline 1 MAX_RETRY_ATTEMPTS =
       [GetSession, Delay 1000, GetSession, Delay 2000, GetSession, Delay 4000,
        GetSession, Delay 8000, GetSession]"
    by (rule timeline_full)
next
  assume fail: "\<forall>n w'. 1 \<le> n \<and> n \<le> MAX_RETRY_ATTEMPTS \<longrightarrow> fst (validation_attempt (env n) w') = Inl (err n)"
  have le: "(1::nat) \<le> MAX_RETRY_ATTEMPTS" by (simp add: MAX_RETRY_ATTEMPTS_def)
  note r = all_fail_from [OF order_refl le fail, of None w]
  show "fst (performValidation env w)
          = \<lparr>isValid = False, session = None,
             error = Some (if message (err MAX_RETRY_ATTEMPTS) = []
                           then ''Session validation failed after all retries''
                           else message (err MAX_RETRY_ATTEMPTS))\<rparr>"
    using r by (simp add: performValidation_def invalid_with_def message_or_def)
  show "\<exists>es. effects (snd (performValidation env w)) = effects w @ es
               \<and> schedule es = timeline 1 MAX_RETRY_ATTEMPTS"
    using r by (simp add: performValidation_def)
qed

theorem retry_backoff_witness:
  "fst (performValidation offline initial_world)
      = \<lparr>isValid = False, session = None, error = Some ''offline''\<rparr>
   \<and> (\<exists>es. effects (snd (performValidation offline initial_world)) = effects initial_world @ es
          \<and> schedule es = [GetSession, Delay 1000, GetSession, Delay 2000, GetSession,
                           Delay 4000, GetSession, Delay 8000, GetSession])"
proof -
  have fail: "\<forall>n w'. 1 \<le> n \<and> n \<le> MAX_RETRY_ATTEMPTS \<longrightarrow>
      fst (validation_attempt (offline n) w') = Inl ((\<lambda>n. Error ''offline'') n)"
    by (simp add: validation_attempt_def offline_def)
  note c = retry_backoff [of offline initial_world "\<lambda>n. Error ''offline''"]
  from c have tl: "timeline 1 MAX_RETRY_ATTEMPTS =
       [GetSession, Delay 1000, GetSession, Delay 2000, GetSession, Delay 4000,
        GetSession, Delay 8000, GetSession]"
    by blast
  from c fail have r: "fst (performValidation offline initial_world)
          = \<lparr>isValid = False, session = None,
             error = Some (if message (Error ''offline'') = []
                           then ''Session validation failed after all retries''
                           else message (Error ''offline''))\<rparr>
        \<and> (\<exists>es. effects (snd (performValidation offline initial_world)) = effects initial_world @ es
               \<and> schedule es = timeline 1 MAX_RETRY_ATTEMPTS)"
    by blast
  show ?thesis
    using r unfolding tl by simp
qed

subsection \<open>The validation cache\<close>

lemma validateSession_hit:
  "sessionValidationPromise w = Some p \<Longrightarrow> t_check - lastValidationTime w < VALIDATION_CACHE_DURATION
   \<Longrightarrow> validateSession t_check t_start w = (Joined p, w)"
  by (simp add: validateSession_def)

lemma validate_calls_hit:
  "sessionValidationPromise w = Some p \<Longrightarrow>
   \<forall>c \<in> set calls. fst c - lastValidationTime w < VALIDATION_CACHE_DURATION \<Longrightarrow>
   validate_calls calls w = (replicate (length calls) (Joined p), w)"
proof (induction calls)
  case Nil
  then show ?case by simp
next
  case (Cons c calls)
  obtain tc ts where c: "c = (tc, ts)" by (cases c)
  show ?case using Cons c by (simp add: validateSession_hit)
qed

lemma validateSession_miss:
  "sessionValidationPromise w = None \<or> VALIDATION_CACHE_DURATION \<le> t_check - lastValidationTime w \<Longrightarrow>
   validateSession t_check t_start w
     = (Started (nextPromise w),
        w\<lparr>lastValidationTime := t_start, sessionValidationPromise := Some (nextPromise w),
          nextPromise := Suc (nextPromise w)\<rparr>)"
  by (auto simp: validateSession_def split: option.splits)

lemma stamp_kept_refl [simp]: "stamp_kept w w"
  by (simp add: stamp_kept_def)

lemma stamp_kept_trans: "stamp_kept w w1 \<Longrightarrow> stamp_kept w1 w2 \<Longrightarrow> stamp_kept w w2"
  by (auto simp: stamp_kept_def)

lemma stamp_kept_emit: "stamp_kept w w1 \<Longrightarrow> stamp_kept w (emit e w1)"
  by (simp add: stamp_kept_def emit_def)

lemma stamp_stored: "stamp_kept w (snd (refresh_with_stored_token env w))"
  by (auto simp: refresh_with_stored_token_def Let_def stamp_kept_def emit_def
      split: option.splits reply.splits if_splits)

lemma stamp_performRefresh: "stamp_kept w (snd (performRefresh env w))"
  using stamp_stored [of "emit (RefreshSession None) w" env]
  by (auto simp: performRefresh_def Let_def stamp_kept_def emit_def split: option.splits reply.splits)

lemma stamp_refreshSession: "stamp_kept w (snd (refreshSession env w))"
proof -
  have e: "lastValidationTime (snd (refreshSession_enter w)) = lastValidationTime w"
    by (simp add: refreshSession_enter_def split: option.splits bool.splits)
  have "stamp_kept (snd (refreshSession_enter w)) (snd (performRefresh env (snd (refreshSession_enter w))))"
    by (rule stamp_performRefresh)
  then show ?thesis using e
    by (cases "refreshSession_enter w")
       (auto simp: refreshSession_def refreshSession_settle_def stamp_kept_def
             split: entered.splits prod.splits)
qed

lemma stamp_attempt: "stamp_kept w (snd (validation_attempt env w))"
proof -
  have a: "\<And>w1 r w2. stamp_kept w w1 \<Longrightarrow> refreshSession (refresh_replies env) w1 = (r, w2) \<Longrightarrow> stamp_kept w w2"
    using stamp_refreshSession stamp_kept_trans by (metis snd_conv)
  show ?thesis
    unfolding validation_attempt_def Let_def
    by (auto split: reply.splits prod.splits option.splits intro!: stamp_kept_emit elim!: a [rotated])
qed

lemma stamp_run_from: "stamp_kept w (snd (performValidation_from env a le w))"
proof (induction env a le w rule: performValidation_from.induct)
  case (1 env attempt lastError w)
  obtain res w1 where att: "validation_attempt (env attempt) w = (res, w1)"
    by (cases "validation_attempt (env attempt) w")
  have s1: "stamp_kept w w1" using stamp_attempt [of w "env attempt"] att by simp
  show ?case
  proof (cases "attempt \<le> MAX_RETRY_ATTEMPTS")
    case False
    then show ?thesis by (subst performValidation_from.simps) simp
  next
    case True
    show ?thesis
    proof (cases res)
      case (Inr result)
      then show ?thesis using att True s1 by (subst performValidation_from.simps) simp
    next
      case (Inl e)
      let ?w2 = "if attempt < MAX_RETRY_ATTEMPTS
                 then emit (Delay (RETRY_DELAY_BASE * 2 ^ (attempt - 1))) w1 else w1"
      have s2: "stamp_kept w ?w2" using s1 by (simp add: stamp_kept_emit)
      have "stamp_kept ?w2 (snd (performValidation_from env (attempt + 1) (Some e) ?w2))"
        using "1.IH" [OF True att [symmetric] Inl] .
      then have "stamp_kept w (snd (performValidation_from env (attempt + 1) (Some e) ?w2))"
        using s2 stamp_kept_trans by blast
      then show ?thesis using att True Inl by (subst performValidation_from.simps) simp
    qed
  qed
qed

lemma flaky_run:
  "performValidation flaky w
     = (valid_with (example_session ''h.p.s''),
        w\<lparr>effects := effects w @ [GetSession, GetUser ''h.p.s'', Delay 1000, GetSession, GetUser ''h.p.s'']\<rparr>)"
proof -
  have a1: "validation_attempt (flaky (Suc 0)) w
      = (Inl (Error ''network''), w\<lparr>effects := effects w @ [GetSession, GetUser ''h.p.s'']\<rparr>)"
    by (simp add: validation_attempt_def flaky_def example_session_def expiring_def emit_def)
  have a2: "\<And>n w'. n \<noteq> 1 \<Longrightarrow> validation_attempt (flaky n) w'
      = (Inr (valid_with (example_session ''h.p.s'')), w'\<lparr>effects := effects w' @ [GetSession, GetUser ''h.p.s'']\<rparr>)"
    by (simp add: validation_attempt_def flaky_def example_session_def expiring_def emit_def)
  show ?thesis
    unfolding performValidation_def
    apply (subst performValidation_from.simps)
    apply (simp add: a1 MAX_RETRY_ATTEMPTS_def)
    apply (subst performValidation_from.simps)
    apply (simp add: a2 MAX_RETRY_ATTEMPTS_def emit_def RETRY_DELAY_BASE_def)
    done
qed

text \<open>
  Claim C1, as stated, fails: a first call starts a validation, two more calls within the
  window are handed its promise, and the one validation, whose probe throws on the first
  attempt and answers on the second, probes the identity provider twice.
\<close>

theorem cached_validation_counterexample:
  "validate_calls [(10, 10), (20, 20)] (snd (validateSession 0 0 initial_world))
      = ([Joined 0, Joined 0], snd (validateSession 0 0 initial_world))
   \<and> length (filter is_probe
        (effects (snd (performValidation flaky (snd (validateSession 0 0 initial_world)))))) = 2"
  by (simp add: flaky_run validateSession_def initial_world_def VALIDATION_CACHE_DURATION_def is_probe_def)

text \<open>
  Claim C1, amended: while the cache holds a validation whose start is less than five
  minutes before a call, every call of a sequence is handed the promise of that
  validation and changes nothing, so that it starts no validation and makes no call of
  the identity provider; a call that finds no such validation starts one and stamps the
  cache with the time of that start, and the calls that follow it less than five minutes
  after that start are all handed its promise; the one validation behind the promise probes the
  identity provider at most once per attempt, at most five times; and its completion does
  not stamp the cache (it leaves the stamp or, through a refresh, resets it).
\<close>

theorem cached_validation:
  "(sessionValidationPromise w = Some p
      \<and> (\<forall>c \<in> set calls. fst c - lastValidationTime w < VALIDATION_CACHE_DURATION)
     \<longrightarrow> validate_calls calls w = (replicate (length calls) (Joined p), w))
   \<and> (sessionValidationPromise w = None \<or> VALIDATION_CACHE_DURATION \<le> t_check - lastValidationTime w
     \<longrightarrow> validateSession t_check t_start w
           = (Started (nextPromise w),
              w\<lparr>lastValidationTime := t_start, sessionValidationPromise := Some (nextPromise w),
                nextPromise := Suc (nextPromise w)\<rparr>))
   \<and> ((sessionValidationPromise w = None \<or> VALIDATION_CACHE_DURATION \<le> t_check - lastValidationTime w)
        \<and> (\<forall>c \<in> set calls. fst c - t_start < VALIDATION_CACHE_DURATION)
     \<longrightarrow> fst (validate_calls ((t_check, t_start) # calls) w)
           = Started (nextPromise w) # replicate (length calls) (Joined (nextPromise w)))
   \<and> (\<exists>es. effects (snd (performValidation env w)) = effects w @ es
          \<and> length (filter is_probe es) \<le> MAX_RETRY_ATTEMPTS)
   \<and> MAX_RETRY_ATTEMPTS = 5
   \<and> (lastValidationTime (snd (performValidation env w)) = lastValidationTime w
        \<or> lastValidationTime (snd (performValidation env w)) = 0)"
proof (intro conjI impI)
  assume "sessionValidationPromise w = Some p
      \<and> (\<forall>c \<in> set calls. fst c - lastValidationTime w < VALIDATION_CACHE_DURATION)"
  then show "validate_calls calls w = (replicate (length calls) (Joined p), w)"
    using validate_calls_hit by blast
next
  assume "sessionValidationPromise w = None \<or> VALIDATION_CACHE_DURATION \<le> t_check - lastValidationTime w"
  then show "validateSession t_check t_start w
           = (Started (nextPromise w),
              w\<lparr>lastValidationTime := t_start, sessionValidationPromise := Some (nextPromise w),
                nextPromise := Suc (nextPromise w)\<rparr>)"
    by (rule validateSession_miss)
next
  assume a: "(sessionValidationPromise w = None \<or> VALIDATION_CACHE_DURATION \<le> t_check - lastValidationTime w)
        \<and> (\<forall>c \<in> set calls. fst c - t_start < VALIDATION_CACHE_DURATION)"
  let ?w1 = "w\<lparr>lastValidationTime := t_start, sessionValidationPromise := Some (nextPromise w),
                nextPromise := Suc (nextPromise w)\<rparr>"
  have m: "validateSession t_check t_start w = (Started (nextPromise w), ?w1)"
    using a validateSession_miss by blast
  have "validate_calls calls ?w1 = (replicate (length calls) (Joined (nextPromise w)), ?w1)"
    using a by (intro validate_calls_hit) simp_all
  then show "fst (validate_calls ((t_check, t_start) # calls) w)
           = Started (nextPromise w) # replicate (length calls) (Joined (nextPromise w))"
    using m by simp
next
  show "\<exists>es. effects (snd (performValidation env w)) = effects w @ es
          \<and> length (filter is_probe es) \<le> MAX_RETRY_ATTEMPTS"
    using run_from [of 1 env None w]
    by (auto simp: performValidation_def MAX_RETRY_ATTEMPTS_def)
next
  show "MAX_RETRY_ATTEMPTS = 5" by (simp add: MAX_RETRY_ATTEMPTS_def)
next
  show "lastValidationTime (snd (performValidation env w)) = lastValidationTime w
        \<or> lastValidationTime (snd (performValidation env w)) = 0"
    using stamp_run_from [of w env 1 None] by (simp add: performValidation_def stamp_kept_def)
qed

theorem cached_validation_witness:
  "validate_calls [(10, 10), (20, 20)] (snd (validateSession 0 0 initial_world))
      = ([Joined 0, Joined 0], snd (validateSession 0 0 initial_world))
   \<and> fst (validate_calls [(0, 0), (10, 10), (299999, 299999)] initial_world)
       = [Started 0, Joined 0, Joined 0]
   \<and> fst (validateSession 300000 300001 (snd (validateSession 0 0 initial_world))) = Started 1
   \<and> lastValidationTime (snd (validateSession 300000 300001 (snd (validateSession 0 0 initial_world))))
       = 300001"
proof -
  let ?w = "snd (validateSession 0 0 initial_world)"
  have p: "sessionValidationPromise ?w = Some 0" and t: "lastValidationTime ?w = 0"
    and n: "nextPromise ?w = 1"
    by (simp_all add: validateSession_def initial_world_def)
  have h: "\<forall>c \<in> set [(10, 10), (20, 20)]. fst c - lastValidationTime ?w < VALIDATION_CACHE_DURATION"
    by (simp add: t VALIDATION_CACHE_DURATION_def)
  have m: "sessionValidationPromise ?w = None \<or> VALIDATION_CACHE_DURATION \<le> 300000 - lastValidationTime ?w"
    by (simp add: t VALIDATION_CACHE_DURATION_def)
  note c = cached_validation [of ?w 0 "[(10, 10), (20, 20)]" 300000 300001 offline]
  from c p h
  have "validate_calls [(10, 10), (20, 20)] ?w
          = (replicate (length [(10::int, 10::int), (20, 20)]) (Joined 0), ?w)"
    by blast
  moreover from c m have "validateSession 300000 300001 ?w
           = (Started (nextPromise ?w),
              ?w\<lparr>lastValidationTime := 300001, sessionValidationPromise := Some (nextPromise ?w),
                nextPromise := Suc (nextPromise ?w)\<rparr>)"
    by blast
  moreover have "fst (validate_calls [(0, 0), (10, 10), (299999, 299999)] initial_world)
       = [Started 0, Joined 0, Joined 0]"
  proof -
    note c0 = cached_validation [of initial_world 0 "[(10, 10), (299999, 299999)]" 0 0 offline]
    have f: "(sessionValidationPromise initial_world = None
                \<or> VALIDATION_CACHE_DURATION \<le> 0 - lastValidationTime initial_world)
             \<and> (\<forall>c \<in> set [(10, 10), (299999, 299999)]. fst c - 0 < VALIDATION_CACHE_DURATION)"
      by (simp add: initial_world_def VALIDATION_CACHE_DURATION_def)
    from c0 f have "fst (validate_calls ((0, 0) # [(10, 10), (299999, 299999)]) initial_world)
           = Started (nextPromise initial_world)
               # replicate (length [(10::int, 10::int), (299999, 299999)]) (Joined (nextPromise initial_world))"
      by blast
    then show ?thesis by (simp add: initial_world_def)
  qed
  ultimately show ?thesis by (simp add: n)
qed

subsection \<open>The refresh coordinator\<close>

lemma key_abc: "storageKey ''https://abc.supabase.co'' = Some ''sb-abc-auth-token''"
  by (simp add: storageKey_def split_def)

lemma fallback_run:
  "localStorage w = [(''sb-abc-auth-token'', stored_json)] \<Longrightarrow>
   performRefresh fallback_env w
     = (Some (example_session ''fresh''),
        w\<lparr>effects := effects w @ [RefreshSession None, RefreshSession (Some ''stored-refresh-token''),
                                  SetSession ''fresh'' ''r1'']\<rparr>)"
  by (simp add: performRefresh_def refresh_with_stored_token_def fallback_env_def key_abc Let_def
        emit_def truthy_def example_session_def example_parse_def)
     (simp add: stored_json_def)

lemma refresh_joins:
  "isRefreshing w \<Longrightarrow> refreshPromise w = Some p \<Longrightarrow> refresh_calls n w = (replicate n (Joined p), w)"
  by (induction n) (simp_all add: refreshSession_enter_def)

lemma refresh_starts:
  "\<not> (isRefreshing w \<and> refreshPromise w \<noteq> None) \<Longrightarrow>
   refreshSession_enter w
     = (Started (nextPromise w),
        w\<lparr>isRefreshing := True, refreshPromise := Some (nextPromise w), nextPromise := Suc (nextPromise w)\<rparr>)"
  by (auto simp: refreshSession_enter_def split: option.splits bool.splits)

lemma refresh_first_then_join:
  assumes "\<not> (isRefreshing w \<and> refreshPromise w \<noteq> None)"
  shows "refresh_calls (Suc n) w
     = (Started (nextPromise w) # replicate n (Joined (nextPromise w)),
        w\<lparr>isRefreshing := True, refreshPromise := Some (nextPromise w), nextPromise := Suc (nextPromise w)\<rparr>)"
  using refresh_starts [OF assms]
  by (simp add: refresh_joins)

lemma performRefresh_count:
  "\<exists>es. effects (snd (performRefresh env w)) = effects w @ es
        \<and> 1 \<le> length (filter is_refresh es) \<and> length (filter is_refresh es) \<le> 2
        \<and> (\<not> primary_error env \<longrightarrow> length (filter is_refresh es) = 1)"
proof -
  obtain es where es:
      "effects (snd (refresh_with_stored_token env (emit (RefreshSession None) w)))
         = effects (emit (RefreshSession None) w) @ es"
      "length (filter is_refresh es) \<le> 1"
    using stored_token_effects by blast
  show ?thesis
    using es
    by (auto simp: performRefresh_def Let_def is_refresh_def is_persist_def primary_error_def
           split: option.splits reply.splits if_splits)
qed

lemma concurrent_refresh_started:
  assumes "\<not> (isRefreshing w \<and> refreshPromise w \<noteq> None)"
  defines "w1 \<equiv> w\<lparr>isRefreshing := True, refreshPromise := Some (nextPromise w), nextPromise := Suc (nextPromise w)\<rparr>"
  shows "concurrent_refresh (Suc n) env w
     = (Started (nextPromise w) # replicate n (Joined (nextPromise w)),
        (snd (performRefresh env w1))
          \<lparr>isRefreshing := False, refreshPromise := None,
           settledRefresh := (settledRefresh (snd (performRefresh env w1)))
                               (nextPromise w \<mapsto> fst (performRefresh env w1))\<rparr>)"
  using refresh_first_then_join [OF assms(1), of n]
  by (simp add: concurrent_refresh_def refreshSession_settle_def w1_def split: prod.splits)

text \<open>
  Claim C2, amended: while a refresh is in flight every caller is handed its promise and
  nothing is started; when none is in flight, of two or more callers that arrive before
  the provider replies the first starts the one refresh and all the others are handed
  its promise, so that all resolve to the one credential it returns (or all to \<open>null\<close>)
  and the slot is free again afterwards. That one refresh calls the provider's refresh
  primitive once, and once more, with the stored refresh token, only when the provider
  answered the first call with an error: at most twice.
\<close>

theorem single_flight:
  "(isRefreshing w \<and> refreshPromise w = Some p \<longrightarrow> refresh_calls n w = (replicate n (Joined p), w))
   \<and> (\<not> (isRefreshing w \<and> refreshPromise w \<noteq> None) \<longrightarrow>
        (\<exists>r es.
           fst (concurrent_refresh (Suc (Suc n)) env w)
             = Started (nextPromise w) # replicate (Suc n) (Joined (nextPromise w))
           \<and> map (\<lambda>x. settledRefresh (snd (concurrent_refresh (Suc (Suc n)) env w)) (promise_of x))
                 (fst (concurrent_refresh (Suc (Suc n)) env w))
               = replicate (Suc (Suc n)) (Some r)
           \<and> effects (snd (concurrent_refresh (Suc (Suc n)) env w)) = effects w @ es
           \<and> 1 \<le> length (filter is_refresh es) \<and> length (filter is_refresh es) \<le> 2
           \<and> (\<not> primary_error env \<longrightarrow> length (filter is_refresh es) = 1)
           \<and> \<not> isRefreshing (snd (concurrent_refresh (Suc (Suc n)) env w))
           \<and> refreshPromise (snd (concurrent_refresh (Suc (Suc n)) env w)) = None))"
proof (intro conjI impI)
  assume "isRefreshing w \<and> refreshPromise w = Some p"
  then show "refresh_calls n w = (replicate n (Joined p), w)"
    using refresh_joins by blast
next
  assume free: "\<not> (isRefreshing w \<and> refreshPromise w \<noteq> None)"
  let ?w1 = "w\<lparr>isRefreshing := True, refreshPromise := Some (nextPromise w), nextPromise := Suc (nextPromise w)\<rparr>"
  obtain es where es: "effects (snd (performRefresh env ?w1)) = effects ?w1 @ es"
      "1 \<le> length (filter is_refresh es)" "length (filter is_refresh es) \<le> 2"
      "\<not> primary_error env \<longrightarrow> length (filter is_refresh es) = 1"
    using performRefresh_count by blast
  show "\<exists>r es.
           fst (concurrent_refresh (Suc (Suc n)) env w)
             = Started (nextPromise w) # replicate (Suc n) (Joined (nextPromise w))
           \<and> map (\<lambda>x. settledRefresh (snd (concurrent_refresh (Suc (Suc n)) env w)) (promise_of x))
                 (fst (concurrent_refresh (Suc (Suc n)) env w))
               = replicate (Suc (Suc n)) (Some r)
           \<and> effects (snd (concurrent_refresh (Suc (Suc n)) env w)) = effects w @ es
           \<and> 1 \<le> length (filter is_refresh es) \<and> length (filter is_refresh es) \<le> 2
           \<and> (\<not> primary_error env \<longrightarrow> length (filter is_refresh es) = 1)
           \<and> \<not> isRefreshing (snd (concurrent_refresh (Suc (Suc n)) env w))
           \<and> refreshPromise (snd (concurrent_refresh (Suc (Suc n)) env w)) = None"
    apply (rule exI [of _ "fst (performRefresh env ?w1)"])
    apply (rule exI [of _ es])
    using es
    apply (simp add: concurrent_refresh_started [OF free] promise_of_def)
    done
qed

text \<open>
  Claim C2, as stated, fails: two concurrent callers share one refresh, and that refresh,
  answered with an error, calls the provider's refresh primitive a second time with the
  stored refresh token.
\<close>

theorem single_flight_counterexample:
  "fst (concurrent_refresh 2 fallback_env stored_world) = [Started 0, Joined 0]
   \<and> effects (snd (concurrent_refresh 2 fallback_env stored_world))
       = [RefreshSession None, RefreshSession (Some ''stored-refresh-token''), SetSession ''fresh'' ''r1'']
   \<and> length (filter is_refresh (effects (snd (concurrent_refresh 2 fallback_env stored_world)))) = 2"
proof -
  have free: "\<not> (isRefreshing stored_world \<and> refreshPromise stored_world \<noteq> None)"
    by (simp add: stored_world_def initial_world_def)
  have n: "nextPromise stored_world = 0" and e: "effects stored_world = []"
    by (simp_all add: stored_world_def initial_world_def)
  have ls: "localStorage stored_world = [(''sb-abc-auth-token'', stored_json)]"
    by (simp add: stored_world_def)
  have two: "(2::nat) = Suc (Suc 0)" by simp
  show ?thesis
    unfolding two
    by (simp add: concurrent_refresh_started [OF free] n e ls fallback_run is_refresh_def)
qed

theorem single_flight_witness:
  "refresh_calls 2 (snd (refreshSession_enter initial_world))
     = ([Joined 0, Joined 0], snd (refreshSession_enter initial_world))
   \<and> fst (concurrent_refresh 3 no_refresh initial_world) = [Started 0, Joined 0, Joined 0]
   \<and> map (\<lambda>x. settledRefresh (snd (concurrent_refresh 3 no_refresh initial_world)) (promise_of x))
         (fst (concurrent_refresh 3 no_refresh initial_world)) = [Some None, Some None, Some None]
   \<and> length (filter is_refresh (effects (snd (concurrent_refresh 3 no_refresh initial_world)))) = 1"
proof -
  let ?w1 = "snd (refreshSession_enter initial_world)"
  have busy: "isRefreshing ?w1 \<and> refreshPromise ?w1 = Some 0"
    by (simp add: refreshSession_enter_def initial_world_def)
  have free: "\<not> (isRefreshing initial_world \<and> refreshPromise initial_world \<noteq> None)"
    by (simp add: initial_world_def)
  have ok: "\<not> primary_error no_refresh"
    by (simp add: primary_error_def no_refresh_def)
  have n: "nextPromise initial_world = 0" and e: "effects initial_world = []"
    by (simp_all add: initial_world_def)
  have three: "(3::nat) = Suc (Suc (Suc 0))" by simp
  note a = single_flight [where w = ?w1 and p = 0 and n = 2 and env = no_refresh]
  note b = single_flight [where w = initial_world and p = 0 and n = "Suc 0" and env = no_refresh]
  from a busy have j: "refresh_calls 2 ?w1 = (replicate 2 (Joined 0), ?w1)" by blast
  let ?c = "concurrent_refresh (Suc (Suc (Suc 0))) no_refresh initial_world"
  from b free have "\<exists>r es.
           fst ?c = Started (nextPromise initial_world) # replicate (Suc (Suc 0)) (Joined (nextPromise initial_world))
           \<and> map (\<lambda>x. settledRefresh (snd ?c) (promise_of x)) (fst ?c)
               = replicate (Suc (Suc (Suc 0))) (Some r)
           \<and> effects (snd ?c) = effects initial_world @ es
           \<and> 1 \<le> length (filter is_refresh es) \<and> length (filter is_refresh es) \<le> 2
           \<and> (\<not> primary_error no_refresh \<longrightarrow> length (filter is_refresh es) = 1)
           \<and> \<not> isRefreshing (snd ?c)
           \<and> refreshPromise (snd ?c) = None"
    by blast
  then obtain r es where r:
      "fst ?c = Started (nextPromise initial_world) # replicate (Suc (Suc 0)) (Joined (nextPromise initial_world))"
      "map (\<lambda>x. settledRefresh (snd ?c) (promise_of x)) (fst ?c) = replicate (Suc (Suc (Suc 0))) (Some r)"
      "effects (snd ?c) = effects initial_world @ es"
      "\<not> primary_error no_refresh \<longrightarrow> length (filter is_refresh es) = 1"
    by blast
  have "settledRefresh (snd ?c) 0 = Some None"
    by (simp add: concurrent_refresh_started [OF free] n performRefresh_def no_refresh_def)
  then have "r = None" using r(1,2) by (simp add: promise_of_def n)
  then show ?thesis using j r ok e n unfolding three by (simp add: numeral_2_eq_2)
qed

text \<open>On its first path \<open>performRefresh\<close> clears the validation cache before it returns
  the session.\<close>

lemma primary_refresh_invalidates:
  assumes "\<not> (isRefreshing w \<and> refreshPromise w \<noteq> None)"
    and "primary_reply env = Returns (Some s, None)"
  shows "fst (refreshSession env w) = Some s
     \<and> sessionValidationPromise (snd (refreshSession env w)) = None
     \<and> lastValidationTime (snd (refreshSession env w)) = 0"
  using assms(2)
  by (simp add: refreshSession_def refresh_starts [OF assms(1)] refreshSession_settle_def
        performRefresh_def Let_def emit_def)

text \<open>
  Claim C3 at a failing input: the provider answers the refresh with an error and the
  refresh with the stored token with a session. \<open>refreshSession\<close> returns that session,
  and the validation cache still holds the promise and the stamp it held before.
\<close>

theorem fallback_refresh_keeps_cache:
  "fst (refreshSession fallback_env cached_world) = Some (example_session ''fresh'')
   \<and> sessionValidationPromise (snd (refreshSession fallback_env cached_world)) = Some 0
   \<and> lastValidationTime (snd (refreshSession fallback_env cached_world)) = 1000"
proof -
  have free: "\<not> (isRefreshing cached_world \<and> refreshPromise cached_world \<noteq> None)"
    by (simp add: cached_world_def stored_world_def initial_world_def)
  have ls: "localStorage cached_world = [(''sb-abc-auth-token'', stored_json)]"
    by (simp add: cached_world_def stored_world_def)
  have c: "sessionValidationPromise cached_world = Some 0" "lastValidationTime cached_world = 1000"
    by (simp_all add: cached_world_def)
  show ?thesis
    by (simp add: refreshSession_def refresh_starts [OF free] refreshSession_settle_def
          fallback_run ls c)
qed

subsection \<open>Isolation and cleanup\<close>

lemma notify_world:
  "snd (notifySessionChange run ev w)
     = w\<lparr>effects := effects w @ Publish ev # map (\<lambda>l. Invoke l ev) (sessionChangeListeners w)\<rparr>"
  by (simp add: notifySessionChange_def)

lemma remove_managed:
  "storageManager_remove k t u w = w\<lparr>managed := (managed w)((TenantLevel u t, k) := None)\<rparr>"
  by (simp add: storageManager_remove_def)

lemma tenant_cleanup_world:
  "performTenantSpecificCleanup K c w
     = w\<lparr>managed := (\<lambda>(sc, k). if sc = TenantLevel (user_id c) (tenant_id c)
                                    \<and> (k = CITY_ACCESS K \<or> k = BOOTSTRAP_DATA K \<or> k = PERMISSIONS_CACHE K)
                                 then None else managed w (sc, k))\<rparr>"
proof -
  have "(\<lambda>(sc, k). if sc = TenantLevel (user_id c) (tenant_id c)
                        \<and> (k = CITY_ACCESS K \<or> k = BOOTSTRAP_DATA K \<or> k = PERMISSIONS_CACHE K)
                     then None else managed w (sc, k))
        = (managed w)((TenantLevel (user_id c) (tenant_id c), CITY_ACCESS K) := None,
                      (TenantLevel (user_id c) (tenant_id c), BOOTSTRAP_DATA K) := None,
                      (TenantLevel (user_id c) (tenant_id c), PERMISSIONS_CACHE K) := None)"
    by (auto simp: fun_eq_iff)
  then show ?thesis
    by (simp add: performTenantSpecificCleanup_def tenantSpecificKeys_def storageManager_remove_def)
qed

lemma setSessionContext_world:
  "setSessionContext env c w
     = w\<lparr>currentContext := Some c,
         managedContext := Some (user_id c, tenant_id c, email c),
         managed := (managed w)((TenantLevel (user_id c) (tenant_id c), SESSION_METADATA (STORAGE_KEYS env))
                       \<mapsto> StoredContext c SESSION_TIMEOUT),
         effects := effects w @
            Publish \<lparr>event_type = (case currentContext w of None \<Rightarrow> Login | Some p \<Rightarrow> User_change),
                     previous_context = currentContext w, new_context = Some c,
                     cleanup_performed = False, timestamp = clock env\<rparr>
            # map (\<lambda>l. Invoke l \<lparr>event_type = (case currentContext w of None \<Rightarrow> Login | Some p \<Rightarrow> User_change),
                     previous_context = currentContext w, new_context = Some c,
                     cleanup_performed = False, timestamp = clock env\<rparr>) (sessionChangeListeners w)\<rparr>"
  by (simp add: setSessionContext_def Let_def notify_world storageManager_setContext_def
        storageManager_set_def current_scope_def)

lemma detect_effects_only:
  "snd (detectSessionCorruption env w) = w\<lparr>effects := effects (snd (detectSessionCorruption env w))\<rparr>"
  by (simp add: detectSessionCorruption_def Let_def emit_def split: reply.splits prod.splits)

lemma detect_frame:
  "\<exists>es. snd (detectSessionCorruption env w) = w\<lparr>effects := es\<rparr>"
  using detect_effects_only by blast

lemma handleTenantChange_managed:
  "managed (handleTenantChange env prev new w)
     = (managed (performTenantSpecificCleanup (STORAGE_KEYS env) prev w))
         ((TenantLevel (user_id new) (tenant_id new), SESSION_METADATA (STORAGE_KEYS env))
            \<mapsto> StoredContext new SESSION_TIMEOUT)"
  by (simp add: handleTenantChange_def Let_def notify_world setSessionContext_world)

lemma handleTenantChange_frame:
  "localStorage (handleTenantChange env prev new w) = localStorage w
   \<and> currentContext (handleTenantChange env prev new w) = Some new"
  by (simp add: handleTenantChange_def Let_def notify_world setSessionContext_world tenant_cleanup_world)

lemma initializeSession_tenant_change:
  assumes "currentContext w = Some prev"
    and "\<not> fst (detectSessionCorruption env w)"
    and "current_session env = Returns (Some s, err)"
    and "user_id prev = user_id (createSessionContext (decoder env) (clock env) s)"
    and "tenant_id prev \<noteq> tenant_id (createSessionContext (decoder env) (clock env) s)"
  shows "\<exists>es. initializeSession env w
     = (Some (createSessionContext (decoder env) (clock env) s),
        handleTenantChange env prev (createSessionContext (decoder env) (clock env) s)
          (w\<lparr>effects := es\<rparr>))"
proof -
  obtain es where w1: "snd (detectSessionCorruption env w) = w\<lparr>effects := es\<rparr>"
    using detect_frame by blast
  then have d: "detectSessionCorruption env w = (False, w\<lparr>effects := es\<rparr>)"
    using assms(2) by (cases "detectSessionCorruption env w") auto
  show ?thesis
    using d assms(1,3,4,5)
    by (auto simp: initializeSession_def Let_def handleTenantChange_frame emit_def)
qed

text \<open>
  Claim C5: when \<open>initializeSession\<close> finds a context, no corruption and a live session of
  the same user in another tenant, the cleanup removes from the storage manager's store
  exactly the three tenant-scoped keys (city access, bootstrap data, permissions cache)
  in the namespace of the previous tenant; the transition then writes the session
  metadata in the namespace of the new tenant and nothing else, so that every key in a
  user-level namespace, and \<open>localStorage\<close>, is as before. The store and its \<open>remove\<close>
  are modelled from the specification.
\<close>

theorem tenant_change_purge:
  assumes "currentContext w = Some prev"
    and "\<not> fst (detectSessionCorruption env w)"
    and "current_session env = Returns (Some s, err)"
    and "new = createSessionContext (decoder env) (clock env) s"
    and "user_id prev = user_id new"
    and "tenant_id prev \<noteq> tenant_id new"
  shows "fst (initializeSession env w) = Some new
     \<and> managed (performTenantSpecificCleanup (STORAGE_KEYS env) prev w)
         = (\<lambda>(sc, k). if sc = TenantLevel (user_id prev) (tenant_id prev)
                          \<and> (k = CITY_ACCESS (STORAGE_KEYS env) \<or> k = BOOTSTRAP_DATA (STORAGE_KEYS env)
                               \<or> k = PERMISSIONS_CACHE (STORAGE_KEYS env))
                       then None else managed w (sc, k))
     \<and> managed (snd (initializeSession env w))
         = (managed (performTenantSpecificCleanup (STORAGE_KEYS env) prev w))
             ((TenantLevel (user_id new) (tenant_id new), SESSION_METADATA (STORAGE_KEYS env))
                \<mapsto> StoredContext new SESSION_TIMEOUT)
     \<and> (\<forall>u k. managed (snd (initializeSession env w)) (UserLevel u, k) = managed w (UserLevel u, k))
     \<and> localStorage (snd (initializeSession env w)) = localStorage w"
proof -
  obtain es where i: "initializeSession env w
      = (Some new, handleTenantChange env prev new (w\<lparr>effects := es\<rparr>))"
    using initializeSession_tenant_change [OF assms(1,2,3)] assms(4,5,6) by auto
  have m: "managed (performTenantSpecificCleanup (STORAGE_KEYS env) prev (w\<lparr>effects := es\<rparr>))
         = managed (performTenantSpecificCleanup (STORAGE_KEYS env) prev w)"
    by (auto simp: tenant_cleanup_world fun_eq_iff)
  have u: "\<And>u k. managed (performTenantSpecificCleanup (STORAGE_KEYS env) prev w) (UserLevel u, k)
         = managed w (UserLevel u, k)"
    by (simp add: tenant_cleanup_world)
  show ?thesis
    by (simp add: i handleTenantChange_managed handleTenantChange_frame m u)
       (simp add: tenant_cleanup_world)
qed


theorem tenant_change_purge_witness:
  "managed tenant_world (TenantLevel ''u1'' ''t1'', ''city_access'') = Some (StoredText ''cities'')
   \<and> managed (snd (initializeSession example_env tenant_world)) (TenantLevel ''u1'' ''t1'', ''city_access'') = None
   \<and> managed (snd (initializeSession example_env tenant_world)) (UserLevel ''u1'', ''probe'') = Some (StoredText ''kept'')
   \<and> tenant_id (createSessionContext (decoder example_env) (clock example_env) (example_session token_t2)) = ''t2''"
proof -
  let ?new = "createSessionContext (decoder example_env) (clock example_env) (example_session token_t2)"
  have c: "currentContext tenant_world = Some example_context"
    by (simp add: tenant_world_def)
  have d: "\<not> fst (detectSessionCorruption example_env tenant_world)"
    by (simp add: detectSessionCorruption_def sessionKeys_def tenant_world_def initial_world_def
          example_env_def example_session_def example_user_def example_context_def Let_def emit_def)
  have l: "current_session example_env = Returns (Some (example_session token_t2), None)"
    by (simp add: example_env_def)
  have u: "user_id example_context = user_id ?new"
    by (simp add: createSessionContext_def Let_def example_context_def example_session_def example_user_def)
  have t: "tenant_id ?new = ''t2''"
    by (simp add: createSessionContext_def Let_def example_env_def example_session_def split_def
          or_empty_def or_else_def truthy_def token_t2_def example_decoder_def)
  have t': "tenant_id example_context \<noteq> tenant_id ?new"
    by (simp add: t example_context_def)
  note p = tenant_change_purge [OF c d l refl u t']
  have k: "STORAGE_KEYS example_env = example_keys" by (simp add: example_env_def)
  have m0: "managed tenant_world (TenantLevel ''u1'' ''t1'', ''city_access'') = Some (StoredText ''cities'')"
    by (simp add: tenant_world_def)
  have m1: "managed (snd (initializeSession example_env tenant_world)) (TenantLevel ''u1'' ''t1'', ''city_access'') = None"
    using p t u by (simp add: k example_keys_def example_context_def)
  have m2: "managed (snd (initializeSession example_env tenant_world)) (UserLevel ''u1'', ''probe'') = Some (StoredText ''kept'')"
    using p by (simp add: tenant_world_def)
  show ?thesis using m0 m1 m2 t by simp
qed

subsection \<open>Corruption and overlapping cleanups\<close>

lemma clearAuthState_world:
  "clearAuthState w
     = w\<lparr>effects := effects w @ [SignOut],
         localStorage := filter (\<lambda>(k, v). \<not> auth_key k) (localStorage w),
         sessionStorage := [], sessionValidationPromise := None, lastValidationTime := 0,
         isRefreshing := False, refreshPromise := None\<rparr>"
  by (simp add: clearAuthState_def Let_def emit_def)

lemma emergency_effects:
  "effects (performEmergencyCleanup env w)
     = effects w @ ClearAll # SignOut #
         Publish \<lparr>event_type = Cleanup, previous_context = currentContext w, new_context = None,
                  cleanup_performed = True, timestamp = clock env\<rparr>
         # map (\<lambda>l. Invoke l \<lparr>event_type = Cleanup, previous_context = currentContext w,
                                 new_context = None, cleanup_performed = True, timestamp = clock env\<rparr>)
               (sessionChangeListeners w)"
  by (simp add: performEmergencyCleanup_def Let_def storageManager_clearAll_def emit_def
        clearAuthState_world notify_world)

lemma emergency_context: "currentContext (performEmergencyCleanup env w) = None"
  by (simp add: performEmergencyCleanup_def Let_def)

lemma many_keys_detected:
  "3 < length (sessionKeys (STORAGE_KEYS env) w) \<Longrightarrow> detectSessionCorruption env w = (True, w)"
  by (simp add: detectSessionCorruption_def)

text \<open>
  Claim C6, amended: more than three session-metadata keys in \<open>localStorage\<close> count as
  corruption; and whenever the corruption check reports corruption, \<open>initializeSession\<close>
  returns \<open>null\<close>, holds no context afterwards, and does, after the effects of the check
  and in this order: the full wipe \<open>clearAll\<close> of the storage manager, the provider's
  sign-out, and the publication to every listener of one event, of type \<open>cleanup\<close>, that
  carries the context held before.
\<close>

theorem corruption_cleanup:
  "(3 < length (sessionKeys (STORAGE_KEYS env) w) \<longrightarrow> detectSessionCorruption env w = (True, w))
   \<and> (fst (detectSessionCorruption env w) \<longrightarrow>
        fst (initializeSession env w) = None
        \<and> currentContext (snd (initializeSession env w)) = None
        \<and> effects (snd (initializeSession env w))
            = effects (snd (detectSessionCorruption env w)) @ ClearAll # SignOut #
                Publish \<lparr>event_type = Cleanup, previous_context = currentContext w, new_context = None,
                         cleanup_performed = True, timestamp = clock env\<rparr>
                # map (\<lambda>l. Invoke l \<lparr>event_type = Cleanup, previous_context = currentContext w,
                                        new_context = None, cleanup_performed = True,
                                        timestamp = clock env\<rparr>)
                      (sessionChangeListeners w))"
proof (intro conjI impI)
  assume "3 < length (sessionKeys (STORAGE_KEYS env) w)"
  then show "detectSessionCorruption env w = (True, w)" by (rule many_keys_detected)
next
  assume c: "fst (detectSessionCorruption env w)"
  obtain es where w1: "snd (detectSessionCorruption env w) = w\<lparr>effects := es\<rparr>"
    using detect_frame by blast
  then have d: "detectSessionCorruption env w = (True, w\<lparr>effects := es\<rparr>)"
    using c by (cases "detectSessionCorruption env w") auto
  show "fst (initializeSession env w) = None"
    by (simp add: initializeSession_def d)
  show "currentContext (snd (initializeSession env w)) = None"
    by (simp add: initializeSession_def d emergency_context)
  show "effects (snd (initializeSession env w))
            = effects (snd (detectSessionCorruption env w)) @ ClearAll # SignOut #
                Publish \<lparr>event_type = Cleanup, previous_context = currentContext w, new_context = None,
                         cleanup_performed = True, timestamp = clock env\<rparr>
                # map (\<lambda>l. Invoke l \<lparr>event_type = Cleanup, previous_context = currentContext w,
                                        new_context = None, cleanup_performed = True,
                                        timestamp = clock env\<rparr>)
                      (sessionChangeListeners w)"
    by (simp add: initializeSession_def d emergency_effects)
qed

lemma corrupted_keys: "length (sessionKeys (STORAGE_KEYS example_env) corrupted_world) = 4"
  by (simp add: sessionKeys_def corrupted_world_def example_env_def example_keys_def)

lemma corrupted_fields:
  "currentContext corrupted_world = Some example_context"
  "sessionChangeListeners corrupted_world = [0]"
  "effects corrupted_world = []"
  "clock example_env = 7"
  by (simp_all add: corrupted_world_def initial_world_def example_env_def)

lemma corrupted_run:
  "initializeSession example_env corrupted_world
     = (None, performEmergencyCleanup example_env corrupted_world)"
  by (simp add: initializeSession_def many_keys_detected corrupted_keys)

text \<open>
  Claim C6, as stated, fails: with four session-metadata keys in storage the only event
  that \<open>initializeSession\<close> publishes has the type \<open>cleanup\<close>, not
  \<open>corruption_detected\<close>.
\<close>

theorem corruption_event_counterexample:
  "fst (initializeSession example_env corrupted_world) = None
   \<and> effects (snd (initializeSession example_env corrupted_world))
       = [ClearAll, SignOut,
          Publish \<lparr>event_type = Cleanup, previous_context = Some example_context, new_context = None,
                   cleanup_performed = True, timestamp = 7\<rparr>,
          Invoke 0 \<lparr>event_type = Cleanup, previous_context = Some example_context, new_context = None,
                    cleanup_performed = True, timestamp = 7\<rparr>]
   \<and> Cleanup \<noteq> Corruption_detected"
  by (simp add: corrupted_run emergency_effects corrupted_fields)

theorem corruption_cleanup_witness:
  "length (sessionKeys (STORAGE_KEYS example_env) corrupted_world) = 4
   \<and> fst (initializeSession example_env corrupted_world) = None
   \<and> currentContext (snd (initializeSession example_env corrupted_world)) = None
   \<and> effects (snd (initializeSession example_env corrupted_world))
       = [ClearAll, SignOut,
          Publish \<lparr>event_type = Cleanup, previous_context = Some example_context, new_context = None,
                   cleanup_performed = True, timestamp = 7\<rparr>,
          Invoke 0 \<lparr>event_type = Cleanup, previous_context = Some example_context, new_context = None,
                    cleanup_performed = True, timestamp = 7\<rparr>]"
proof -
  have k: "3 < length (sessionKeys (STORAGE_KEYS example_env) corrupted_world)"
    by (simp add: corrupted_keys)
  note t = corruption_cleanup [of example_env corrupted_world]
  from t k have d: "detectSessionCorruption example_env corrupted_world = (True, corrupted_world)"
    by blast
  then have "fst (detectSessionCorruption example_env corrupted_world)" by simp
  with t have r: "fst (initializeSession example_env corrupted_world) = None
        \<and> currentContext (snd (initializeSession example_env corrupted_world)) = None
        \<and> effects (snd (initializeSession example_env corrupted_world))
            = effects (snd (detectSessionCorruption example_env corrupted_world)) @ ClearAll # SignOut #
                Publish \<lparr>event_type = Cleanup, previous_context = currentContext corrupted_world, new_context = None,
                         cleanup_performed = True, timestamp = clock example_env\<rparr>
                # map (\<lambda>l. Invoke l \<lparr>event_type = Cleanup, previous_context = currentContext corrupted_world,
                                        new_context = None, cleanup_performed = True,
                                        timestamp = clock example_env\<rparr>)
                      (sessionChangeListeners corrupted_world)"
    by blast
  show ?thesis
    using r by (simp add: d corrupted_keys corrupted_fields)
qed

lemma cleanup_guard: "isCleanupInProgress w \<Longrightarrow> clearSessionComplete env w = w"
  by (simp add: clearSessionComplete_def)

text \<open>
  Claim C7 at a failing input: a first call of \<open>clearSessionComplete\<close> in a signed-in
  browser sets the guard, removes the legacy key in its synchronous segment and is
  suspended in its cleanup. A second call made then, or made while the first call awaits
  the health checker, returns at once and changes nothing: it purges nothing, but it is
  over while the guard is still set, nothing has been published and the provider's stored
  session, which the first cleanup removes in \<open>clearAuthState\<close>, is still in storage.
  Only the rest of the first call removes that key and clears the guard.
\<close>

theorem overlapping_cleanup_returns_early:
  "isCleanupInProgress (clearSessionComplete_enter signed_in_world)
   \<and> localStorage (clearSessionComplete_enter signed_in_world) = [(''sb-abc-auth-token'', stored_json)]
   \<and> effects (clearSessionComplete_enter signed_in_world) = []
   \<and> clearSessionComplete example_env (clearSessionComplete_enter signed_in_world)
       = clearSessionComplete_enter signed_in_world
   \<and> clearSessionComplete example_env (emit (HealthCheck True) (clearSessionComplete_enter signed_in_world))
       = emit (HealthCheck True) (clearSessionComplete_enter signed_in_world)
   \<and> localStorage (clearSessionComplete_resume example_env (Some example_context)
                      (clearSessionComplete_enter signed_in_world)) = []
   \<and> \<not> isCleanupInProgress (clearSessionComplete_resume example_env (Some example_context)
                                (clearSessionComplete_enter signed_in_world))"
proof -
  let ?w1 = "clearSessionComplete_enter signed_in_world"
  have e: "isCleanupInProgress ?w1"
    by (simp add: clearSessionComplete_enter_def performComprehensiveCleanup_begin_def
          storageManager_clearContext_def clearLegacyStorage_def)
  have l: "localStorage ?w1 = [(''sb-abc-auth-token'', stored_json)]"
    by (simp add: clearSessionComplete_enter_def performComprehensiveCleanup_begin_def
          storageManager_clearContext_def clearLegacyStorage_def signed_in_world_def
          legacy_key_def legacyPatterns_def)
  have n: "effects ?w1 = []"
    by (simp add: clearSessionComplete_enter_def performComprehensiveCleanup_begin_def
          storageManager_clearContext_def clearLegacyStorage_def signed_in_world_def initial_world_def)
  have e': "isCleanupInProgress (emit (HealthCheck True) ?w1)"
    using e by (simp add: emit_def)
  have r: "localStorage (clearSessionComplete_resume example_env (Some example_context) ?w1) = []"
    by (simp add: clearSessionComplete_resume_def performComprehensiveCleanup_rest_def Let_def l
          emit_def example_env_def clearAuthState_world notify_world auth_key_def)
  have f: "\<not> isCleanupInProgress (clearSessionComplete_resume example_env (Some example_context) ?w1)"
    by (simp add: clearSessionComplete_resume_def Let_def)
  show ?thesis
    using e l n r f cleanup_guard [OF e] cleanup_guard [OF e'] by simp
qed

end
